theory Spec2Isabelle
  imports Complex_Main "HOL-Library.Log_Nat" "HOL-Library.Multiset"
begin

section \<open>JavaScript numbers\<close>

text \<open>
  The front end is TypeScript; every \<^verbatim>\<open>number\<close> is an IEEE 754 binary64 value.
  A finite value is modelled by the rational it denotes (negative zero is identified with
  zero: no operation used below tells them apart), the three special values are
  constructors. Arithmetic computes the exact rational result and rounds it to the nearest
  binary64 value, ties to even, as ECMAScript's \<^verbatim>\<open>Number::multiply\<close>,
  \<^verbatim>\<open>Number::subtract\<close> and \<^verbatim>\<open>Number::divide\<close> do.
\<close>

datatype number = NaN | PosInfinity | NegInfinity | Fin rat

text \<open>\<open>expo x\<close> is the binary exponent of a positive rational: \<open>2 ^ expo x \<le> x < 2 ^ (expo x + 1)\<close>.\<close>

definition expo :: "rat \<Rightarrow> int" where
  "expo x = (case quotient_of x of (n, d) \<Rightarrow>
     let k = bitlen n - bitlen d in if 2 powi k \<le> x then k else k - 1)"

text \<open>Rounding a rational to the nearest integer, ties to the even one.\<close>

definition rne :: "rat \<Rightarrow> int" where
  "rne q = (let f = \<lfloor>q\<rfloor>; r = q - of_int f in
     if r < 1 / 2 then f else if 1 / 2 < r then f + 1 else if even f then f else f + 1)"

text \<open>
  The spacing of binary64 values around a positive \<open>x\<close>: 53 significant bits, and no
  finer than \<open>2 ^ - 1074\<close> (the subnormal range).
\<close>

definition ulp :: "rat \<Rightarrow> rat" where
  "ulp x = 2 powi (max (expo x) (- 1022) - 52)"

definition rnd :: "rat \<Rightarrow> rat" where
  "rnd x = of_int (rne (x / ulp x)) * ulp x"

text \<open>Rounding of an exact result; a magnitude that rounds to \<open>2 ^ 1024\<close> overflows.\<close>

definition fl64 :: "rat \<Rightarrow> number" where
  "fl64 x = (if x = 0 then Fin 0
     else let r = rnd \<bar>x\<bar> in
       if 2 ^ 1024 \<le> r then (if 0 < x then PosInfinity else NegInfinity)
       else Fin (if 0 < x then r else - r))"

text \<open>A rational is a binary64 value when rounding leaves it alone.\<close>

definition binary64 :: "rat \<Rightarrow> bool" where
  "binary64 x = (fl64 x = Fin x)"

text \<open>The values a JSON response can put into a numeric field: every number but NaN.\<close>

fun json_number :: "number \<Rightarrow> bool" where
  "json_number NaN = False"
| "json_number (Fin x) = binary64 x"
| "json_number _ = True"

fun js_times :: "number \<Rightarrow> number \<Rightarrow> number" where
  "js_times NaN _ = NaN"
| "js_times _ NaN = NaN"
| "js_times (Fin x) (Fin y) = fl64 (x * y)"
| "js_times (Fin x) PosInfinity = (if x = 0 then NaN else if 0 < x then PosInfinity else NegInfinity)"
| "js_times (Fin x) NegInfinity = (if x = 0 then NaN else if 0 < x then NegInfinity else PosInfinity)"
| "js_times PosInfinity (Fin y) = (if y = 0 then NaN else if 0 < y then PosInfinity else NegInfinity)"
| "js_times NegInfinity (Fin y) = (if y = 0 then NaN else if 0 < y then NegInfinity else PosInfinity)"
| "js_times PosInfinity PosInfinity = PosInfinity"
| "js_times PosInfinity NegInfinity = NegInfinity"
| "js_times NegInfinity PosInfinity = NegInfinity"
| "js_times NegInfinity NegInfinity = PosInfinity"

fun js_minus :: "number \<Rightarrow> number \<Rightarrow> number" where
  "js_minus NaN _ = NaN"
| "js_minus _ NaN = NaN"
| "js_minus (Fin x) (Fin y) = fl64 (x - y)"
| "js_minus (Fin x) PosInfinity = NegInfinity"
| "js_minus (Fin x) NegInfinity = PosInfinity"
| "js_minus PosInfinity PosInfinity = NaN"
| "js_minus PosInfinity _ = PosInfinity"
| "js_minus NegInfinity NegInfinity = NaN"
| "js_minus NegInfinity _ = NegInfinity"

text \<open>The relational operators: every comparison with NaN is false.\<close>

fun js_lt :: "number \<Rightarrow> number \<Rightarrow> bool" where
  "js_lt NaN _ = False"
| "js_lt _ NaN = False"
| "js_lt (Fin x) (Fin y) = (x < y)"
| "js_lt (Fin x) PosInfinity = True"
| "js_lt NegInfinity (Fin y) = True"
| "js_lt NegInfinity PosInfinity = True"
| "js_lt _ _ = False"

fun js_eq :: "number \<Rightarrow> number \<Rightarrow> bool" where
  "js_eq NaN _ = False"
| "js_eq _ NaN = False"
| "js_eq a b = (a = b)"

definition js_ge :: "number \<Rightarrow> number \<Rightarrow> bool" where
  "js_ge a b = (js_lt b a \<or> js_eq a b)"

definition js_le :: "number \<Rightarrow> number \<Rightarrow> bool" where
  "js_le a b = (js_lt a b \<or> js_eq a b)"

text \<open>
  Division. A zero divisor is taken as \<open>+0\<close> (the model does not keep the sign of zero);
  the only division in the code below is guarded by a truthiness test on the divisor.
\<close>

fun js_div :: "number \<Rightarrow> number \<Rightarrow> number" where
  "js_div NaN _ = NaN"
| "js_div _ NaN = NaN"
| "js_div (Fin x) (Fin y) =
     (if y = 0 then (if x = 0 then NaN else if 0 < x then PosInfinity else NegInfinity)
      else fl64 (x / y))"
| "js_div (Fin x) _ = Fin 0"
| "js_div PosInfinity (Fin y) = (if 0 \<le> y then PosInfinity else NegInfinity)"
| "js_div NegInfinity (Fin y) = (if 0 \<le> y then NegInfinity else PosInfinity)"
| "js_div _ _ = NaN"

text \<open>\<^verbatim>\<open>Math.round\<close>: the nearest integer, a tie going up.\<close>

fun Math_round :: "number \<Rightarrow> number" where
  "Math_round (Fin x) = Fin (of_int \<lfloor>x + 1 / 2\<rfloor>)"
| "Math_round v = v"

text \<open>Truthiness of a number: everything but NaN and zero.\<close>

fun truthy :: "number \<Rightarrow> bool" where
  "truthy NaN = False"
| "truthy (Fin x) = (x \<noteq> 0)"
| "truthy _ = True"

subsection \<open>Facts about rounding\<close>

lemma pow2_pos [simp]: "0 < (2::rat) powi k"
  by (simp add: power_int_def)

lemma pow2_mono: "a \<le> b \<Longrightarrow> (2::rat) powi a \<le> 2 powi b"
  by (rule power_int_increasing) simp_all

lemma pow2_add: "(2::rat) powi (a + b) = 2 powi a * 2 powi b"
  by (simp add: power_int_add)

lemma bitlen_rat_bounds:
  assumes "0 < n"
  shows "(2::rat) powi (bitlen n - 1) \<le> of_int n" and "of_int n < (2::rat) powi (bitlen n)"
proof -
  from bitlen_bounds [OF assms]
  have lo: "2 ^ nat (bitlen n - 1) \<le> n" and hi: "n < 2 ^ nat (bitlen n)" by simp_all
  have b1: "1 \<le> bitlen n" using assms by (simp add: bitlen_alt_def)
  have "(of_int (2 ^ nat (bitlen n - 1)) :: rat) \<le> of_int n"
    using lo by (simp only: of_int_le_iff)
  then show "(2::rat) powi (bitlen n - 1) \<le> of_int n"
    using b1 by (simp add: power_int_def)
  have "(of_int n :: rat) < of_int (2 ^ nat (bitlen n))"
    using hi by (simp only: of_int_less_iff)
  then show "of_int n < (2::rat) powi (bitlen n)"
    using b1 by (simp add: power_int_def)
qed

lemma expo_bounds:
  assumes "0 < x"
  shows "2 powi (expo x) \<le> x" and "x < 2 powi (expo x + 1)"
proof -
  obtain n d where q: "quotient_of x = (n, d)" by (cases "quotient_of x")
  have d: "0 < d" using q by (rule quotient_of_denom_pos)
  have x: "x = of_int n / of_int d" using q by (rule quotient_of_div)
  have n: "0 < n" using assms d x by (simp add: zero_less_divide_iff)
  define k where "k = bitlen n - bitlen d"
  have e: "expo x = (if 2 powi k \<le> x then k else k - 1)"
    by (simp add: expo_def q k_def Let_def)
  note bn = bitlen_rat_bounds [OF n] and bd = bitlen_rat_bounds [OF d]
  have dpos: "(0::rat) < of_int d" using d by simp
  have "x * of_int d < 2 powi (bitlen n)" using bn(2) dpos by (simp add: x)
  also have "\<dots> = 2 powi (k + 1) * 2 powi (bitlen d - 1)"
    by (simp add: k_def pow2_add [symmetric])
  also have "\<dots> \<le> 2 powi (k + 1) * of_int d"
    using bd(1) by (simp add: mult_left_mono)
  finally have hi: "x < 2 powi (k + 1)" using dpos by simp
  have "(2::rat) powi (k - 1) * of_int d < 2 powi (k - 1) * 2 powi (bitlen d)"
    using bd(2) by (simp add: mult_strict_left_mono)
  also have "\<dots> = 2 powi (bitlen n - 1)"
    by (simp add: k_def pow2_add [symmetric])
  also have "\<dots> \<le> x * of_int d" using bn(1) dpos by (simp add: x)
  finally have lo: "2 powi (k - 1) < x" using dpos by simp
  show "2 powi (expo x) \<le> x" using lo by (simp add: e)
  show "x < 2 powi (expo x + 1)" using hi by (auto simp add: e not_le)
qed

lemma expo_mono:
  assumes "0 < x" "x \<le> y"
  shows "expo x \<le> expo y"
proof (rule ccontr)
  assume "\<not> expo x \<le> expo y"
  then have "expo y + 1 \<le> expo x" by simp
  then have "(2::rat) powi (expo y + 1) \<le> 2 powi (expo x)" by (rule pow2_mono)
  also have "\<dots> \<le> x" using assms(1) by (rule expo_bounds)
  finally have "2 powi (expo y + 1) \<le> y" using assms(2) by simp
  moreover have "y < 2 powi (expo y + 1)" using assms by (intro expo_bounds) simp
  ultimately show False by simp
qed

lemma expo_eqI:
  assumes "2 powi e \<le> x" "x < 2 powi (e + 1)"
  shows "expo x = e"
proof -
  have x: "0 < x" using assms(1) pow2_pos [of e] by linarith
  note b = expo_bounds [OF x]
  have "\<not> expo x < e"
  proof
    assume "expo x < e"
    then have "(2::rat) powi (expo x + 1) \<le> 2 powi e" by (intro pow2_mono) simp
    with b(2) assms(1) show False by linarith
  qed
  moreover have "\<not> e < expo x"
  proof
    assume "e < expo x"
    then have "(2::rat) powi (e + 1) \<le> 2 powi (expo x)" by (intro pow2_mono) simp
    with b(1) assms(2) show False by linarith
  qed
  ultimately show ?thesis by simp
qed

lemma rne_int [simp]: "rne (of_int n) = n"
  by (simp add: rne_def)

lemma rne_floor_le: "\<lfloor>q\<rfloor> \<le> rne q"
  by (simp add: rne_def Let_def)

lemma rne_le_floor1: "rne q \<le> \<lfloor>q\<rfloor> + 1"
  by (simp add: rne_def Let_def)

lemma rne_mono:
  assumes "p \<le> q"
  shows "rne p \<le> rne q"
proof (cases "\<lfloor>p\<rfloor> = \<lfloor>q\<rfloor>")
  case True
  with assms show ?thesis by (auto simp add: rne_def Let_def)
next
  case False
  with assms have "\<lfloor>p\<rfloor> + 1 \<le> \<lfloor>q\<rfloor>" using floor_mono [of p q] by simp
  then show ?thesis using rne_le_floor1 [of p] rne_floor_le [of q] by simp
qed

lemma ulp_pos [simp]: "0 < ulp x"
  by (simp add: ulp_def)

lemma ulp_nonneg [simp]: "0 \<le> ulp x"
  by (simp add: ulp_def less_imp_le)

lemma pow2_split53: "(2::rat) powi (e + 1) = of_int (2 ^ 53) * 2 powi (e - 52)"
proof -
  have "e + 1 = 53 + (e - 52)" by simp
  then have "(2::rat) powi (e + 1) = 2 powi (53 + (e - 52))" by (simp only:)
  also have "\<dots> = 2 powi 53 * 2 powi (e - 52)" by (rule pow2_add)
  finally show ?thesis by simp
qed

lemma pow2_split52: "(2::rat) powi e = of_int (2 ^ 52) * 2 powi (e - 52)"
proof -
  have "(2::rat) powi e = 2 powi (52 + (e - 52))" by simp
  also have "\<dots> = 2 powi 52 * 2 powi (e - 52)" by (rule pow2_add)
  finally show ?thesis by simp
qed

lemma rnd_nonneg: "0 \<le> x \<Longrightarrow> 0 \<le> rnd x"
proof -
  assume "0 \<le> x"
  then have "0 \<le> x / ulp x" by simp
  then have "rne 0 \<le> rne (x / ulp x)" by (rule rne_mono)
  then have "0 \<le> rne (x / ulp x)" using rne_int [of 0] by simp
  then show ?thesis by (simp add: rnd_def)
qed

lemma rnd_upper:
  assumes "0 < x"
  shows "rnd x \<le> 2 powi (max (expo x) (- 1022) + 1)"
proof -
  define E where "E = max (expo x) (- 1022)"
  have u: "ulp x = 2 powi (E - 52)" by (simp add: ulp_def E_def)
  have "x < 2 powi (expo x + 1)" using assms by (rule expo_bounds)
  also have "\<dots> \<le> 2 powi (E + 1)" by (rule pow2_mono) (simp add: E_def)
  also have "\<dots> = of_int (2 ^ 53) * ulp x" unfolding u by (rule pow2_split53)
  finally have "x / ulp x \<le> of_int (2 ^ 53)" by (simp add: pos_divide_le_eq)
  then have "rne (x / ulp x) \<le> rne (of_int (2 ^ 53))" by (rule rne_mono)
  then have "rne (x / ulp x) \<le> 2 ^ 53" by (simp only: rne_int)
  then have "(of_int (rne (x / ulp x)) :: rat) \<le> of_int (2 ^ 53)" by (simp only: of_int_le_iff)
  then have "rnd x \<le> of_int (2 ^ 53) * ulp x"
    unfolding rnd_def by (rule mult_right_mono) simp
  also have "\<dots> = 2 powi (E + 1)" unfolding u by (rule pow2_split53 [symmetric])
  finally show ?thesis by (simp add: E_def)
qed

lemma rnd_lower:
  assumes "0 < x" "- 1022 \<le> expo x"
  shows "2 powi (expo x) \<le> rnd x"
proof -
  have u: "ulp x = 2 powi (expo x - 52)" using assms(2) by (simp add: ulp_def max_def)
  have "of_int (2 ^ 52) * ulp x = 2 powi (expo x)" unfolding u by (rule pow2_split52 [symmetric])
  also have "\<dots> \<le> x" using assms(1) by (rule expo_bounds)
  finally have "of_int (2 ^ 52) \<le> x / ulp x" by (simp add: pos_le_divide_eq)
  then have "rne (of_int (2 ^ 52)) \<le> rne (x / ulp x)" by (rule rne_mono)
  then have "2 ^ 52 \<le> rne (x / ulp x)" by (simp only: rne_int)
  then have "(of_int (2 ^ 52) :: rat) \<le> of_int (rne (x / ulp x))" by (simp only: of_int_le_iff)
  then have "of_int (2 ^ 52) * ulp x \<le> rnd x"
    unfolding rnd_def by (rule mult_right_mono) simp
  moreover have "of_int (2 ^ 52) * ulp x = 2 powi (expo x)"
    unfolding u by (rule pow2_split52 [symmetric])
  ultimately show ?thesis by simp
qed

lemma rnd_mono:
  assumes "0 < x" "x \<le> y"
  shows "rnd x \<le> rnd y"
proof -
  have y: "0 < y" using assms by simp
  define Ex where "Ex = max (expo x) (- 1022)"
  define Ey where "Ey = max (expo y) (- 1022)"
  have le: "Ex \<le> Ey" using expo_mono [OF assms] by (simp add: Ex_def Ey_def)
  show ?thesis
  proof (cases "Ex = Ey")
    case True
    then have u: "ulp x = ulp y" by (simp add: ulp_def Ex_def Ey_def)
    have "x / ulp y \<le> y / ulp y" using assms(2) by (simp add: divide_right_mono)
    then have "rne (x / ulp y) \<le> rne (y / ulp y)" by (rule rne_mono)
    then have "(of_int (rne (x / ulp y)) :: rat) \<le> of_int (rne (y / ulp y))"
      by (simp only: of_int_le_iff)
    then show ?thesis unfolding rnd_def u by (rule mult_right_mono) simp
  next
    case False
    with le have lt: "Ex + 1 \<le> Ey" by simp
    then have ey: "- 1022 \<le> expo y" "Ey = expo y" by (auto simp add: Ex_def Ey_def)
    have "rnd x \<le> 2 powi (Ex + 1)" using rnd_upper [OF assms(1)] by (simp add: Ex_def)
    also have "\<dots> \<le> 2 powi Ey" using lt by (rule pow2_mono)
    also have "\<dots> \<le> rnd y" using rnd_lower [OF y ey(1)] by (simp add: ey(2))
    finally show ?thesis .
  qed
qed


lemma binary64_pos_rnd:
  assumes "binary64 c" "0 < c"
  shows "rnd c = c"
  using assms by (auto simp add: binary64_def fl64_def Let_def split: if_splits)

lemma binary64_grid53:
  assumes "binary64 c" "1 / 2 \<le> c" "c < 1"
  shows "\<exists>m::int. c = of_int m / 2 ^ 53"
proof -
  have c: "0 < c" using assms(2) by simp
  have "expo c = - 1" using assms(2,3) by (intro expo_eqI) (simp_all add: power_int_minus)
  then have u: "ulp c = 1 / 2 ^ 53" by (simp add: ulp_def power_int_minus_divide)
  have "c = of_int (rne (c / ulp c)) * ulp c"
    using binary64_pos_rnd [OF assms(1) c] by (simp add: rnd_def)
  then have "c = of_int (rne (c / ulp c)) / 2 ^ 53" by (simp add: u)
  then show ?thesis ..
qed

lemma binary64_step_down:
  assumes "binary64 c" "c < 1" "c < of_int M / 2 ^ 53" "2 ^ 52 < M"
  shows "c \<le> of_int (M - 1) / 2 ^ 53"
proof (cases "1 / 2 \<le> c")
  case True
  from binary64_grid53 [OF assms(1) True assms(2)]
  obtain m :: int where m: "c = of_int m / 2 ^ 53" ..
  have "(of_int m :: rat) < of_int M" using assms(3) by (simp add: m divide_less_cancel)
  then have "m \<le> M - 1" by simp
  then have "(of_int m :: rat) \<le> of_int (M - 1)" by (simp only: of_int_le_iff)
  then show ?thesis by (simp add: m divide_le_cancel)
next
  case False
  have "2 ^ 52 \<le> M - 1" using assms(4) by simp
  then have "(of_int (2 ^ 52) :: rat) \<le> of_int (M - 1)" by (simp only: of_int_le_iff)
  then have "(1 / 2 :: rat) \<le> of_int (M - 1) / 2 ^ 53" by (simp add: pos_le_divide_eq)
  with False show ?thesis by simp
qed


subsection \<open>Evaluating a rounding\<close>

lemma floor_rat_numeral [simp]:
  "\<lfloor>numeral a / numeral b :: rat\<rfloor> = numeral a div numeral b"
  by (metis floor_divide_of_int_eq of_int_numeral)

lemma rnd_eval:
  assumes "2 powi e \<le> x" "x < 2 powi (e + 1)" "- 1022 \<le> e"
  shows "rnd x = of_int (rne (x / 2 powi (e - 52))) * 2 powi (e - 52)"
  using expo_eqI [OF assms(1,2)] assms(3) by (simp add: rnd_def ulp_def)

lemma fl64_pos_finite:
  assumes "0 < x" "x < 2 powi 1023"
  shows "fl64 x = Fin (rnd x)"
proof -
  have "expo x < 1023"
  proof (rule ccontr)
    assume "\<not> expo x < 1023"
    then have "(2::rat) powi 1023 \<le> 2 powi (expo x)" by (intro pow2_mono) simp
    also have "\<dots> \<le> x" using assms(1) by (rule expo_bounds)
    finally show False using assms(2) by simp
  qed
  then have "max (expo x) (- 1022) + 1 \<le> 1023" by simp
  then have "(2::rat) powi (max (expo x) (- 1022) + 1) \<le> 2 powi 1023" by (rule pow2_mono)
  with rnd_upper [OF assms(1)] have "rnd x \<le> 2 powi 1023" by simp
  also have "\<dots> < 2 ^ 1024" by simp
  finally show ?thesis using assms(1) by (simp add: fl64_def Let_def)
qed

lemma binary64_0 [simp]: "binary64 0"
  by (simp add: binary64_def fl64_def)

lemma binary64_posI:
  assumes "0 < x" "x < 2 powi 1023" "rnd x = x"
  shows "binary64 x"
  using fl64_pos_finite [OF assms(1,2)] assms(3) by (simp add: binary64_def)

subsection \<open>The sign of a rounded difference\<close>

lemma binary64_grid:
  assumes "binary64 a"
  shows "\<exists>k::int. a = of_int k * 2 powi (- 1074)"
proof -
  have pos: "\<exists>k::int. c = of_int k * 2 powi (- 1074)" if c: "0 < c" and r: "rnd c = c" for c
  proof -
    define E where "E = max (expo c) (- 1022)"
    have "E - 52 = (E + 1022) + (- 1074)" by simp
    then have "(2::rat) powi (E - 52) = 2 powi ((E + 1022) + (- 1074))" by (simp only:)
    also have "\<dots> = 2 powi (E + 1022) * 2 powi (- 1074)" by (rule pow2_add)
    also have "(2::rat) powi (E + 1022) = of_int (2 ^ nat (E + 1022))"
      by (simp add: power_int_def E_def)
    finally have u: "ulp c = of_int (2 ^ nat (E + 1022)) * 2 powi (- 1074)"
      by (simp add: ulp_def E_def)
    have "c = of_int (rne (c / ulp c)) * ulp c" using r by (simp add: rnd_def)
    also have "\<dots> = of_int (rne (c / ulp c) * 2 ^ nat (E + 1022)) * 2 powi (- 1074)"
      by (simp add: u)
    finally show ?thesis ..
  qed
  consider "a = 0" | "0 < a" | "a < 0" by linarith
  then show ?thesis
  proof cases
    case 1
    then have "a = of_int 0 * 2 powi (- 1074)" by simp
    then show ?thesis ..
  next
    case 2
    then show ?thesis using pos [OF 2] binary64_pos_rnd [OF assms 2] by simp
  next
    case 3
    then have "rnd (- a) = - a"
      using assms by (auto simp add: binary64_def fl64_def Let_def split: if_splits)
    with 3 pos [of "- a"] obtain k :: int where "- a = of_int k * 2 powi (- 1074)" by auto
    then have "a = of_int (- k) * 2 powi (- 1074)" by simp
    then show ?thesis ..
  qed
qed

lemma rnd_pos_grid:
  assumes "0 < x" "x = of_int k * 2 powi (- 1074)"
  shows "0 < rnd x"
proof (cases "- 1022 \<le> expo x")
  case True
  have "(0::rat) < 2 powi (expo x)" by simp
  also have "\<dots> \<le> rnd x" using assms(1) True by (rule rnd_lower)
  finally show ?thesis .
next
  case False
  define P where "P = (2::rat) powi (- 1074)"
  have P: "0 < P" unfolding P_def by (rule pow2_pos)
  have x: "x = of_int k * P" using assms(2) by (simp only: P_def)
  have "max (expo x) (- 1022) - 52 = - 1074" using False by simp
  then have "ulp x = 2 powi (- 1074)" unfolding ulp_def by (simp only:)
  then have u: "ulp x = P" by (simp only: P_def)
  have "x / P = of_int k" using P by (simp add: x)
  then have q: "x / ulp x = of_int k" by (simp only: u)
  have "rnd x = of_int (rne (x / ulp x)) * ulp x" by (simp only: rnd_def)
  also have "\<dots> = of_int (rne (of_int k)) * P" by (simp only: q) (simp only: u)
  also have "\<dots> = x" by (simp add: x)
  finally show ?thesis using assms(1) by simp
qed

lemma fl64_pos:
  assumes "0 < x" "x = of_int k * 2 powi (- 1074)"
  shows "js_lt (Fin 0) (fl64 x)"
  using assms(1) rnd_pos_grid [OF assms] by (simp add: fl64_def Let_def)

lemma fl64_not_pos:
  assumes "x \<le> 0"
  shows "\<not> js_lt (Fin 0) (fl64 x)"
proof -
  have "0 \<le> rnd \<bar>x\<bar>" by (rule rnd_nonneg) simp
  then show ?thesis using assms by (simp add: fl64_def Let_def)
qed

lemma js_minus_pos_iff:
  assumes "binary64 a" "binary64 b"
  shows "js_lt (Fin 0) (js_minus (Fin a) (Fin b)) = (b < a)"
proof (cases "b < a")
  case True
  from binary64_grid [OF assms(1)] obtain k :: int where k: "a = of_int k * 2 powi (- 1074)" ..
  from binary64_grid [OF assms(2)] obtain l :: int where l: "b = of_int l * 2 powi (- 1074)" ..
  have "a - b = of_int (k - l) * 2 powi (- 1074)" by (simp add: k l algebra_simps)
  moreover have "0 < a - b" using True by simp
  ultimately have "js_lt (Fin 0) (fl64 (a - b))" by (rule fl64_pos [rotated])
  with True show ?thesis by simp
next
  case False
  then have "a - b \<le> 0" by simp
  then have "\<not> js_lt (Fin 0) (fl64 (a - b))" by (rule fl64_not_pos)
  with False show ?thesis by simp
qed


section \<open>Confidence classification\<close>

text \<open>
  \<^verbatim>\<open>getConfidenceBadge\<close> (Results.tsx) returns one of three badge elements; the model
  returns which one. The thresholds are tested on \<^verbatim>\<open>percent = confidence * 100\<close>, a
  rounded binary64 product.
\<close>

datatype badge = HighConfidence | Medium | ReviewNeeded

definition getConfidenceBadge :: "number \<Rightarrow> badge" where
  "getConfidenceBadge confidence =
     (let percent = js_times confidence (Fin 100) in
      if js_ge percent (Fin 95) then HighConfidence
      else if js_ge percent (Fin 80) then Medium
      else ReviewNeeded)"

lemma rnd_100: "rnd 100 = 100"
  by (subst rnd_eval [where e = 6]) (simp_all add: rne_def)

lemma rnd_095: "rnd (8556839292003942 / 2 ^ 53 * 100) = 95"
  by (subst rnd_eval [where e = 6]) (simp_all add: rne_def)

lemma rnd_095_pred: "rnd (8556839292003941 / 2 ^ 53 * 100) < 95"
  by (subst rnd_eval [where e = 6]) (simp_all add: rne_def)

lemma rnd_080_pred: "rnd (7205759403792793 / 2 ^ 53 * 100) = 80"
  by (subst rnd_eval [where e = 6]) (simp_all add: rne_def)

lemma rnd_080_pred2: "rnd (7205759403792792 / 2 ^ 53 * 100) < 80"
  by (subst rnd_eval [where e = 6]) (simp_all add: rne_def)

lemma percent_finite:
  assumes "0 < c" "c \<le> 1"
  shows "fl64 (c * 100) = Fin (rnd (c * 100))"
proof -
  have "rnd (c * 100) \<le> rnd 100" using assms by (intro rnd_mono) simp_all
  then have "rnd (c * 100) < 2 ^ 1024" by (simp add: rnd_100)
  then show ?thesis using assms(1) by (simp add: fl64_def Let_def)
qed

lemma getConfidenceBadge_pos:
  assumes "0 < c" "c \<le> 1"
  shows "getConfidenceBadge (Fin c) =
    (if 95 \<le> rnd (c * 100) then HighConfidence
     else if 80 \<le> rnd (c * 100) then Medium else ReviewNeeded)"
  by (auto simp add: getConfidenceBadge_def percent_finite [OF assms] js_ge_def)

text \<open>
  C1 (as the code has it). For every binary64 confidence in \<open>[0, 1]\<close> the badge is exactly one
  of the three tiers: high from \<open>8556839292003942 / 2 ^ 53\<close> on (the binary64 value of the
  literal 0.95), medium from \<open>7205759403792793 / 2 ^ 53\<close> (0.7999999999999999, the
  binary64 value just below the literal 0.80, whose product with 100 rounds to 80) up to
  there, and review-needed below.
\<close>

theorem getConfidenceBadge_tiers:
  assumes "binary64 c" "0 \<le> c" "c \<le> 1"
  shows "getConfidenceBadge (Fin c) =
    (if 8556839292003942 / 2 ^ 53 \<le> c then HighConfidence
     else if 7205759403792793 / 2 ^ 53 \<le> c then Medium
     else ReviewNeeded)"
proof (cases "c = 0")
  case True
  then show ?thesis by (simp add: getConfidenceBadge_def fl64_def js_ge_def)
next
  case False
  with assms(2) have c: "0 < c" by simp
  note badge = getConfidenceBadge_pos [OF c assms(3)]
  consider (high) "8556839292003942 / 2 ^ 53 \<le> c"
    | (medium) "c < 8556839292003942 / 2 ^ 53" "7205759403792793 / 2 ^ 53 \<le> c"
    | (low) "c < 7205759403792793 / 2 ^ 53"
    by linarith
  then show ?thesis
  proof cases
    case high
    have "95 = rnd (8556839292003942 / 2 ^ 53 * 100)" by (rule rnd_095 [symmetric])
    also have "\<dots> \<le> rnd (c * 100)" using high by (intro rnd_mono) simp_all
    finally have "95 \<le> rnd (c * 100)" .
    then show ?thesis using high by (simp add: badge)
  next
    case medium
    have c1: "c < 1" using medium(1) by simp
    have "c \<le> of_int (8556839292003942 - 1) / 2 ^ 53"
      using medium(1) by (intro binary64_step_down [OF assms(1) c1]) simp_all
    then have "rnd (c * 100) \<le> rnd (8556839292003941 / 2 ^ 53 * 100)"
      using c by (intro rnd_mono) simp_all
    also have "\<dots> < 95" by (rule rnd_095_pred)
    finally have hi: "rnd (c * 100) < 95" .
    have "80 = rnd (7205759403792793 / 2 ^ 53 * 100)" by (rule rnd_080_pred [symmetric])
    also have "\<dots> \<le> rnd (c * 100)" using medium(2) by (intro rnd_mono) simp_all
    finally have lo: "80 \<le> rnd (c * 100)" .
    show ?thesis using medium hi lo by (simp add: badge)
  next
    case low
    have c1: "c < 1" using low by simp
    have "c \<le> of_int (7205759403792793 - 1) / 2 ^ 53"
      using low by (intro binary64_step_down [OF assms(1) c1]) simp_all
    then have "rnd (c * 100) \<le> rnd (7205759403792792 / 2 ^ 53 * 100)"
      using c by (intro rnd_mono) simp_all
    also have "\<dots> < 80" by (rule rnd_080_pred2)
    finally have "rnd (c * 100) < 80" .
    then show ?thesis using low by (simp add: badge)
  qed
qed

lemma fl64_unit_eval:
  assumes "1 / 2 \<le> x" "x < 1"
  shows "fl64 x = Fin (of_int (rne (x * 2 ^ 53)) / 2 ^ 53)"
proof -
  have x: "0 < x" using assms(1) by simp
  have "x < 2 powi 1023" using assms(2) by simp
  then have "fl64 x = Fin (rnd x)" using x by (intro fl64_pos_finite)
  also have "rnd x = of_int (rne (x / 2 powi (- 1 - 52))) * 2 powi (- 1 - 52)"
    using assms by (intro rnd_eval) (simp_all add: power_int_minus)
  finally show ?thesis by (simp add: power_int_minus_divide)
qed

text \<open>
  The six sample points of the specification (0.0, 0.79999, 0.80, 0.94999, 0.95, 1.0), as
  the binary64 values of these literals, fall into the tiers the specification lists.
\<close>

theorem getConfidenceBadge_tiers_witness:
  "binary64 0 \<and> getConfidenceBadge (Fin 0) = ReviewNeeded
   \<and> fl64 (79999 / 100000) = Fin (3602834665900123 / 2 ^ 52)
   \<and> getConfidenceBadge (Fin (3602834665900123 / 2 ^ 52)) = ReviewNeeded
   \<and> fl64 (4 / 5) = Fin (7205759403792794 / 2 ^ 53)
   \<and> getConfidenceBadge (Fin (7205759403792794 / 2 ^ 53)) = Medium
   \<and> fl64 (94999 / 100000) = Fin (8556749220011395 / 2 ^ 53)
   \<and> getConfidenceBadge (Fin (8556749220011395 / 2 ^ 53)) = Medium
   \<and> fl64 (19 / 20) = Fin (8556839292003942 / 2 ^ 53)
   \<and> getConfidenceBadge (Fin (8556839292003942 / 2 ^ 53)) = HighConfidence
   \<and> binary64 1 \<and> getConfidenceBadge (Fin 1) = HighConfidence"
proof -
  have l1: "fl64 (79999 / 100000) = Fin (3602834665900123 / 2 ^ 52)"
    by (subst fl64_unit_eval) (simp_all add: rne_def)
  have b1: "binary64 (3602834665900123 / 2 ^ 52)"
    unfolding binary64_def by (subst fl64_unit_eval) (simp_all add: rne_def)
  have l2: "fl64 (4 / 5) = Fin (7205759403792794 / 2 ^ 53)"
    by (subst fl64_unit_eval) (simp_all add: rne_def)
  have b2: "binary64 (7205759403792794 / 2 ^ 53)"
    unfolding binary64_def by (subst fl64_unit_eval) (simp_all add: rne_def)
  have l3: "fl64 (94999 / 100000) = Fin (8556749220011395 / 2 ^ 53)"
    by (subst fl64_unit_eval) (simp_all add: rne_def)
  have b3: "binary64 (8556749220011395 / 2 ^ 53)"
    unfolding binary64_def by (subst fl64_unit_eval) (simp_all add: rne_def)
  have l4: "fl64 (19 / 20) = Fin (8556839292003942 / 2 ^ 53)"
    by (subst fl64_unit_eval) (simp_all add: rne_def)
  have b4: "binary64 (8556839292003942 / 2 ^ 53)"
    unfolding binary64_def by (subst fl64_unit_eval) (simp_all add: rne_def)
  have b5: "binary64 1"
  proof (rule binary64_posI)
    show "rnd 1 = (1::rat)" by (subst rnd_eval [where e = 0]) (simp_all add: rne_def)
  qed simp_all
  have "getConfidenceBadge (Fin 0) = ReviewNeeded"
    using getConfidenceBadge_tiers [OF binary64_0] by simp
  moreover have "getConfidenceBadge (Fin (3602834665900123 / 2 ^ 52)) = ReviewNeeded"
    using getConfidenceBadge_tiers [OF b1] by simp
  moreover have "getConfidenceBadge (Fin (7205759403792794 / 2 ^ 53)) = Medium"
    using getConfidenceBadge_tiers [OF b2] by simp
  moreover have "getConfidenceBadge (Fin (8556749220011395 / 2 ^ 53)) = Medium"
    using getConfidenceBadge_tiers [OF b3] by simp
  moreover have "getConfidenceBadge (Fin (8556839292003942 / 2 ^ 53)) = HighConfidence"
    using getConfidenceBadge_tiers [OF b4] by simp
  moreover have "getConfidenceBadge (Fin 1) = HighConfidence"
    using getConfidenceBadge_tiers [OF b5] by simp
  ultimately show ?thesis using l1 l2 l3 l4 b5 by simp
qed

text \<open>
  The claim as the specification words it fails at one value: the largest binary64 number
  below 0.80 is below the threshold (as a rational, and in a binary64 comparison with the
  literal 0.80), and its badge is medium, not review-needed.
\<close>

theorem getConfidenceBadge_below_080_counterexample:
  "binary64 (7205759403792793 / 2 ^ 53)
   \<and> (0::rat) \<le> 7205759403792793 / 2 ^ 53 \<and> (7205759403792793 / 2 ^ 53 :: rat) \<le> 1
   \<and> (7205759403792793 / 2 ^ 53 :: rat) < 4 / 5
   \<and> js_lt (Fin (7205759403792793 / 2 ^ 53)) (fl64 (4 / 5))
   \<and> getConfidenceBadge (Fin (7205759403792793 / 2 ^ 53)) = Medium"
proof -
  have b: "binary64 (7205759403792793 / 2 ^ 53)"
    unfolding binary64_def by (subst fl64_unit_eval) (simp_all add: rne_def)
  have l: "fl64 (4 / 5) = Fin (7205759403792794 / 2 ^ 53)"
    by (subst fl64_unit_eval) (simp_all add: rne_def)
  have "getConfidenceBadge (Fin (7205759403792793 / 2 ^ 53)) =
      (if 95 \<le> rnd (7205759403792793 / 2 ^ 53 * 100) then HighConfidence
       else if 80 \<le> rnd (7205759403792793 / 2 ^ 53 * 100) then Medium else ReviewNeeded)"
    by (rule getConfidenceBadge_pos) simp_all
  then have m: "getConfidenceBadge (Fin (7205759403792793 / 2 ^ 53)) = Medium"
    unfolding rnd_080_pred by simp
  show ?thesis using b l m by simp
qed

section \<open>Strings\<close>

text \<open>Template literals print a non-negative integer in decimal.\<close>

definition digit_char :: "nat \<Rightarrow> char" where
  "digit_char d = ''0123456789'' ! d"

fun show_nat :: "nat \<Rightarrow> string" where
  "show_nat n = (if n < 10 then [digit_char n] else show_nat (n div 10) @ [digit_char (n mod 10)])"

declare show_nat.simps [simp del]

text \<open>
  \<^verbatim>\<open>x.toFixed(2)\<close> for a finite \<open>x\<close> below \<open>10 ^ 21\<close>: the integer \<open>n\<close> nearest to
  \<open>100 * x\<close> (the larger one on a tie), printed with two decimals.
\<close>

definition toFixed2_nonneg :: "rat \<Rightarrow> string" where
  "toFixed2_nonneg x = (let n = nat \<lfloor>x * 100 + 1 / 2\<rfloor> in
     show_nat (n div 100) @ ''.'' @ [digit_char (n mod 100 div 10), digit_char (n mod 10)])"

fun toFixed2 :: "number \<Rightarrow> string" where
  "toFixed2 NaN = ''NaN''"
| "toFixed2 PosInfinity = ''Infinity''"
| "toFixed2 NegInfinity = ''-Infinity''"
| "toFixed2 (Fin x) = (if x < 0 then ''-'' @ toFixed2_nonneg (- x) else toFixed2_nonneg x)"

section \<open>The service client (api/client.ts)\<close>

subsection \<open>Data\<close>

type_synonym addr = nat

type_synonym opaque = string

record Material =
  name :: string
  quantity :: number
  unit :: string
  unit_price :: number
  total_cost :: number
  irc_clause :: string
  price_source :: string
  fetched_date :: string

text \<open>
  Objects live in the JavaScript heap. An estimate's \<^verbatim>\<open>items\<close> field holds a reference to
  an array; the arrays themselves are kept in a store (section ``Sorted view'').
\<close>

record Estimate =
  estimate_id :: string
  filename :: string
  created_at :: string
  status :: string
  items :: addr
  total_cost :: number
  confidence :: number
  metadata :: opaque

record Intervention =
  itype :: string
  quantity :: number
  unit :: string
  location :: string
  confidence :: number
  extraction_method :: string

record EstimateItem =
  intervention :: Intervention
  materials :: "Material list"
  total_cost :: number
  audit_trail :: opaque
  assumptions :: "string list"

record Verification =
  vstatus :: string
  passed_count :: number
  warning_count :: number
  error_count :: number

record EstimateResponse =
  success :: bool
  response_estimate_id :: string
  response_filename :: string
  response_status :: string
  response_extraction_method :: string
  extraction_confidence :: number
  interventions_found :: nat
  response_total_cost :: number
  overall_confidence :: number
  processing_time_ms :: number
  verification :: "Verification option"
  response_metadata :: opaque
  response_items :: opaque

record ApiError =
  api_error :: bool
  status_code :: nat
  api_message :: string
  details :: "opaque option"
  path :: "string option"

record File =
  file_name :: string
  file_size :: nat
  file_type :: string

subsection \<open>Requests and thrown values\<close>

datatype http_method = GET | POST | DELETE

datatype param = PNum number | PStr string

datatype body = NoBody | FormData "(string \<times> File) list"

text \<open>
  The \<^verbatim>\<open>responseType\<close> of a request: \<^verbatim>\<open>'json'\<close>, the default of the instance, or
  \<^verbatim>\<open>'blob'\<close>.
\<close>

datatype response_type = ResponseJson | ResponseBlob

record request =
  meth :: http_method
  url :: string
  params :: "(string \<times> param) list"
  payload :: body
  responseType :: response_type

text \<open>
  The body of an error response, as the \<^verbatim>\<open>catch\<close> block finds it in
  \<^verbatim>\<open>response.data\<close>: parsed JSON, which is an error envelope or not (\<open>Parsed None\<close>: no
  envelope, or an envelope without a \<^verbatim>\<open>message\<close> field), or a \<^verbatim>\<open>Blob\<close> holding the
  bytes of the body. A \<^verbatim>\<open>Blob\<close> has no \<^verbatim>\<open>message\<close> property, whatever its bytes are.
\<close>

datatype response_body = Parsed "ApiError option" | BlobData

record axios_response =
  data :: response_body
  http_status :: nat

text \<open>
  What a \<^verbatim>\<open>catch\<close> can receive: an error of the transport library (with the response,
  if one arrived, whether a request was made, and its message), a plain \<^verbatim>\<open>Error\<close> with its
  message, or any other value.
\<close>

datatype thrown =
    AxiosError "axios_response option" bool string
  | Error string
  | OtherValue

text \<open>\<^verbatim>\<open>handleApiError\<close> never returns: the model gives the value it throws.\<close>

fun handleApiError :: "thrown \<Rightarrow> thrown" where
  "handleApiError (AxiosError (Some response) request_made msg) =
     Error (case data response of
              Parsed (Some apiError) \<Rightarrow>
                if api_message apiError \<noteq> [] then api_message apiError
                else ''API Error: '' @ show_nat (http_status response)
            | Parsed None \<Rightarrow> ''API Error: '' @ show_nat (http_status response)
            | BlobData \<Rightarrow> ''API Error: '' @ show_nat (http_status response))"
| "handleApiError (AxiosError None True msg) =
     Error ''Network error: Unable to reach the server. Please check your connection.''"
| "handleApiError (AxiosError None False msg) = Error (''Request error: '' @ msg)"
| "handleApiError _ = Error ''An unexpected error occurred''"

subsection \<open>Operations\<close>

text \<open>
  Every operation takes the network and the server as a parameter \<open>send\<close>: it answers a
  request with the response body, or with the failure, where the body of an error response
  is the JSON the server sent. \<^verbatim>\<open>apiClient\<close> is the configured axios instance on top of
  it: it hands over the body of a response in the \<^verbatim>\<open>responseType\<close> of the request, so
  the response to a request with \<^verbatim>\<open>responseType: 'blob'\<close> carries a \<^verbatim>\<open>Blob\<close>, also when
  it is an error response. An operation returns the requests it has sent and its outcome,
  \<open>Inl\<close> the value it throws.
\<close>

record AxiosProgressEvent =
  loaded :: number
  total :: "number option"

fun as_response_type :: "response_type \<Rightarrow> response_body \<Rightarrow> response_body" where
  "as_response_type ResponseJson b = b"
| "as_response_type ResponseBlob b = BlobData"

fun deliver :: "response_type \<Rightarrow> thrown + 'r \<Rightarrow> thrown + 'r" where
  "deliver rt (Inl (AxiosError (Some response) request_made msg)) =
     Inl (AxiosError (Some (response\<lparr>data := as_response_type rt (data response)\<rparr>))
            request_made msg)"
| "deliver rt outcome = outcome"

definition apiClient :: "(request \<Rightarrow> thrown + 'r) \<Rightarrow> request \<Rightarrow> thrown + 'r" where
  "apiClient send req = deliver (responseType req) (send req)"

text \<open>The same for a request with a progress callback: \<open>send\<close> gives the progress events too.\<close>

definition apiClient_progress ::
  "(request \<Rightarrow> AxiosProgressEvent list \<times> (thrown + 'r)) \<Rightarrow> request \<Rightarrow>
    AxiosProgressEvent list \<times> (thrown + 'r)" where
  "apiClient_progress send req =
     (case send req of (events, outcome) \<Rightarrow> (events, deliver (responseType req) outcome))"

definition onUploadProgress :: "bool \<Rightarrow> AxiosProgressEvent \<Rightarrow> number option" where
  "onUploadProgress has_onProgress progressEvent =
     (case total progressEvent of
        None \<Rightarrow> None
      | Some t \<Rightarrow>
          if truthy t \<and> has_onProgress
          then Some (Math_round (js_div (js_times (loaded progressEvent) (Fin 100)) t))
          else None)"

definition MAX_SIZE :: nat where
  "MAX_SIZE = 25 * 1024 * 1024"

definition uploadPDF ::
  "(request \<Rightarrow> AxiosProgressEvent list \<times> (thrown + 'r)) \<Rightarrow> File \<Rightarrow> bool \<Rightarrow>
    request list \<times> number list \<times> (thrown + 'r)" where
  "uploadPDF send f has_onProgress =
     (if file_type f \<noteq> ''application/pdf''
      then ([], [], Inl (handleApiError (Error ''Invalid file type. Please upload a PDF file.'')))
      else if file_size f > MAX_SIZE
      then ([], [], Inl (handleApiError (Error ''File size exceeds 25 MB limit.'')))
      else
        let req = \<lparr>meth = POST, url = ''/api/upload'', params = [],
                   payload = FormData [(''file'', f)], responseType = ResponseJson\<rparr>
        in case apiClient_progress send req of
             (events, Inr response_data) \<Rightarrow>
               ([req], List.map_filter (onUploadProgress has_onProgress) events, Inr response_data)
           | (events, Inl e) \<Rightarrow>
               ([req], List.map_filter (onUploadProgress has_onProgress) events,
                Inl (handleApiError e)))"

text \<open>The body of \<^verbatim>\<open>GET /api/estimate/{id}\<close> is the pair of \<^verbatim>\<open>success\<close> and \<^verbatim>\<open>estimate\<close>.\<close>

definition getEstimate ::
  "(request \<Rightarrow> thrown + bool \<times> 'e) \<Rightarrow> string \<Rightarrow> request list \<times> (thrown + 'e)" where
  "getEstimate send eid =
     (let req = \<lparr>meth = GET, url = ''/api/estimate/'' @ eid, params = [],
                 payload = NoBody, responseType = ResponseJson\<rparr>
      in ([req],
          case apiClient send req of
            Inr response_data \<Rightarrow> Inr (snd response_data)
          | Inl e \<Rightarrow> Inl (handleApiError e)))"

definition listEstimates ::
  "(request \<Rightarrow> thrown + 'r) \<Rightarrow> number option \<Rightarrow> number option \<Rightarrow> string option \<Rightarrow>
    request list \<times> (thrown + 'r)" where
  "listEstimates send limit_arg offset_arg statusFilter =
     (let limit = (case limit_arg of None \<Rightarrow> Fin 20 | Some l \<Rightarrow> l);
          offset = (case offset_arg of None \<Rightarrow> Fin 0 | Some off \<Rightarrow> off);
          params0 = [(''limit'', PNum limit), (''offset'', PNum offset)];
          params1 = (case statusFilter of
                       None \<Rightarrow> params0
                     | Some f \<Rightarrow> if f \<noteq> [] then params0 @ [(''status_filter'', PStr f)]
                                else params0);
          req = \<lparr>meth = GET, url = ''/api/estimates'', params = params1, payload = NoBody,
                 responseType = ResponseJson\<rparr>
      in ([req], case apiClient send req of Inr response_data \<Rightarrow> Inr response_data
                 | Inl e \<Rightarrow> Inl (handleApiError e)))"

definition deleteEstimate ::
  "(request \<Rightarrow> thrown + 'r) \<Rightarrow> string \<Rightarrow> request list \<times> (thrown + 'r)" where
  "deleteEstimate send eid =
     (let req = \<lparr>meth = DELETE, url = ''/api/estimate/'' @ eid, params = [],
                 payload = NoBody, responseType = ResponseJson\<rparr>
      in ([req], case apiClient send req of Inr response_data \<Rightarrow> Inr response_data
                 | Inl e \<Rightarrow> Inl (handleApiError e)))"

datatype export_format = Csv | Json | Pdf

fun format_string :: "export_format \<Rightarrow> string" where
  "format_string Csv = ''csv''"
| "format_string Json = ''json''"
| "format_string Pdf = ''pdf''"

definition exportEstimate ::
  "(request \<Rightarrow> thrown + 'r) \<Rightarrow> string \<Rightarrow> export_format \<Rightarrow> request list \<times> (thrown + 'r)" where
  "exportEstimate send eid format =
     (let req = \<lparr>meth = GET, url = ''/api/estimate/'' @ eid @ ''/export'',
                 params = [(''format'', PStr (format_string format))], payload = NoBody,
                 responseType = ResponseBlob\<rparr>
      in ([req], case apiClient send req of Inr response_data \<Rightarrow> Inr response_data
                 | Inl e \<Rightarrow> Inl (handleApiError e)))"

definition getEstimateSummary ::
  "(request \<Rightarrow> thrown + 'r) \<Rightarrow> string \<Rightarrow> request list \<times> (thrown + 'r)" where
  "getEstimateSummary send eid =
     (let req = \<lparr>meth = GET, url = ''/api/estimate/'' @ eid @ ''/summary'', params = [],
                 payload = NoBody, responseType = ResponseJson\<rparr>
      in ([req], case apiClient send req of Inr response_data \<Rightarrow> Inr response_data
                 | Inl e \<Rightarrow> Inl (handleApiError e)))"

definition searchMaterialPrices ::
  "(request \<Rightarrow> thrown + 'r) \<Rightarrow> string \<Rightarrow> number option \<Rightarrow> request list \<times> (thrown + 'r)" where
  "searchMaterialPrices send query limit_arg =
     (let limit = (case limit_arg of None \<Rightarrow> Fin 10 | Some l \<Rightarrow> l);
          req = \<lparr>meth = GET, url = ''/api/pricing/search'',
                 params = [(''q'', PStr query), (''limit'', PNum limit)], payload = NoBody,
                 responseType = ResponseJson\<rparr>
      in ([req], case apiClient send req of Inr response_data \<Rightarrow> Inr response_data
                 | Inl e \<Rightarrow> Inl (handleApiError e)))"

definition getMaterialPrice ::
  "(request \<Rightarrow> thrown + 'r) \<Rightarrow> string \<Rightarrow> request list \<times> (thrown + 'r)" where
  "getMaterialPrice send materialName =
     (let req = \<lparr>meth = GET, url = ''/api/pricing/'' @ materialName, params = [],
                 payload = NoBody, responseType = ResponseJson\<rparr>
      in ([req], case apiClient send req of Inr response_data \<Rightarrow> Inr response_data
                 | Inl e \<Rightarrow> Inl (handleApiError e)))"

definition getMaterialCategories ::
  "(request \<Rightarrow> thrown + 'r) \<Rightarrow> request list \<times> (thrown + 'r)" where
  "getMaterialCategories send =
     (let req = \<lparr>meth = GET, url = ''/api/pricing/categories'', params = [],
                 payload = NoBody, responseType = ResponseJson\<rparr>
      in ([req], case apiClient send req of Inr response_data \<Rightarrow> Inr response_data
                 | Inl e \<Rightarrow> Inl (handleApiError e)))"

definition getPricingStatistics ::
  "(request \<Rightarrow> thrown + 'r) \<Rightarrow> request list \<times> (thrown + 'r)" where
  "getPricingStatistics send =
     (let req = \<lparr>meth = GET, url = ''/api/pricing/statistics'', params = [],
                 payload = NoBody, responseType = ResponseJson\<rparr>
      in ([req], case apiClient send req of Inr response_data \<Rightarrow> Inr response_data
                 | Inl e \<Rightarrow> Inl (handleApiError e)))"

definition checkHealthStatus ::
  "(request \<Rightarrow> thrown + 'r) \<Rightarrow> request list \<times> (thrown + 'r)" where
  "checkHealthStatus send =
     (let req = \<lparr>meth = GET, url = ''/health'', params = [],
                 payload = NoBody, responseType = ResponseJson\<rparr>
      in ([req], case apiClient send req of Inr response_data \<Rightarrow> Inr response_data
                 | Inl e \<Rightarrow> Inl (handleApiError e)))"

subsection \<open>Error normalisation\<close>

text \<open>
  An outcome is normalised when it is a value, or one plain \<^verbatim>\<open>Error\<close> whose message is
  not empty; an error of the transport library or any other thrown value is not.
\<close>

fun normalized :: "thrown + 'a \<Rightarrow> bool" where
  "normalized (Inr v) = True"
| "normalized (Inl (Error msg)) = (msg \<noteq> [])"
| "normalized (Inl _) = False"

lemma deliver_json [simp]: "deliver ResponseJson outcome = outcome"
  by (cases "(ResponseJson, outcome)" rule: deliver.cases) simp_all

lemma deliver_value [simp]: "deliver rt (Inr v) = Inr v"
  by simp

lemma deliver_value_iff [simp]: "(deliver rt outcome = Inr v) = (outcome = Inr v)"
  by (cases "(rt, outcome)" rule: deliver.cases) simp_all

lemma deliver_thrown: "\<exists>e'. deliver rt (Inl e) = Inl e'"
  by (cases "(rt, Inl e :: thrown + 'a)" rule: deliver.cases) simp_all

lemma handleApiError_normalized [simp]: "normalized (Inl (handleApiError e))"
  by (cases e rule: handleApiError.cases)
    (simp_all split: option.splits response_body.splits)

lemma handleApiError_envelope:
  "api_message env \<noteq> [] \<Longrightarrow>
   handleApiError (AxiosError (Some \<lparr>data = Parsed (Some env), http_status = st\<rparr>) rq msg) =
     Error (api_message env)"
  by simp

lemma handleApiError_blob:
  "handleApiError (AxiosError (Some \<lparr>data = BlobData, http_status = st\<rparr>) rq msg) =
     Error (''API Error: '' @ show_nat st)"
  by simp

lemma uploadPDF_normalized: "normalized (snd (snd (uploadPDF send f cb)))"
  by (simp add: uploadPDF_def apiClient_progress_def Let_def split: prod.splits sum.splits)

lemma getEstimate_normalized: "normalized (snd (getEstimate send eid))"
  by (simp add: getEstimate_def apiClient_def Let_def split: sum.splits)

lemma listEstimates_normalized: "normalized (snd (listEstimates send l off sf))"
  by (simp add: listEstimates_def apiClient_def Let_def split: sum.splits)

lemma deleteEstimate_normalized: "normalized (snd (deleteEstimate send eid))"
  by (simp add: deleteEstimate_def apiClient_def Let_def split: sum.splits)

lemma exportEstimate_normalized: "normalized (snd (exportEstimate send eid fmt))"
  by (simp add: exportEstimate_def apiClient_def Let_def split: sum.splits)

lemma getEstimateSummary_normalized: "normalized (snd (getEstimateSummary send eid))"
  by (simp add: getEstimateSummary_def apiClient_def Let_def split: sum.splits)

lemma searchMaterialPrices_normalized: "normalized (snd (searchMaterialPrices send q l))"
  by (simp add: searchMaterialPrices_def apiClient_def Let_def split: sum.splits)

lemma getMaterialPrice_normalized: "normalized (snd (getMaterialPrice send n))"
  by (simp add: getMaterialPrice_def apiClient_def Let_def split: sum.splits)

lemma getMaterialCategories_normalized: "normalized (snd (getMaterialCategories send))"
  by (simp add: getMaterialCategories_def apiClient_def Let_def split: sum.splits)

lemma getPricingStatistics_normalized: "normalized (snd (getPricingStatistics send))"
  by (simp add: getPricingStatistics_def apiClient_def Let_def split: sum.splits)

lemma checkHealthStatus_normalized: "normalized (snd (checkHealthStatus send))"
  by (simp add: checkHealthStatus_def apiClient_def Let_def split: sum.splits)

text \<open>
  Whatever the network does, each of the eleven operations ends in a value or in one plain
  \<^verbatim>\<open>Error\<close> with a non-empty message: no error of the transport library and no other
  thrown value reaches the caller.
\<close>

lemma operations_normalized:
  "normalized (snd (snd (uploadPDF send0 f cb)) :: thrown + 'r)
   \<and> normalized (snd (getEstimate send1 eid) :: thrown + 'r)
   \<and> normalized (snd (listEstimates send2 l off sf) :: thrown + 'r)
   \<and> normalized (snd (deleteEstimate send3 eid) :: thrown + 'r)
   \<and> normalized (snd (exportEstimate send4 eid fmt) :: thrown + 'r)
   \<and> normalized (snd (getEstimateSummary send5 eid) :: thrown + 'r)
   \<and> normalized (snd (searchMaterialPrices send6 q l) :: thrown + 'r)
   \<and> normalized (snd (getMaterialPrice send7 n) :: thrown + 'r)
   \<and> normalized (snd (getMaterialCategories send8) :: thrown + 'r)
   \<and> normalized (snd (getPricingStatistics send9) :: thrown + 'r)
   \<and> normalized (snd (checkHealthStatus send10) :: thrown + 'r)"
  by (simp add: uploadPDF_normalized getEstimate_normalized listEstimates_normalized
      deleteEstimate_normalized exportEstimate_normalized getEstimateSummary_normalized
      searchMaterialPrices_normalized getMaterialPrice_normalized
      getMaterialCategories_normalized getPricingStatistics_normalized
      checkHealthStatus_normalized)

text \<open>
  When the server answers with an error envelope whose message is not empty, the ten
  operations that ask for JSON throw an \<^verbatim>\<open>Error\<close> with that message, unchanged (the
  upload: once the file has passed the client's own validation).
\<close>

lemma json_operations_envelope_message:
  fixes env :: ApiError and st :: nat and rq :: bool and msg :: string
  assumes "api_message env \<noteq> []"
  defines "ax \<equiv> AxiosError (Some \<lparr>data = Parsed (Some env), http_status = st\<rparr>) rq msg"
  defines "thrown_error \<equiv> (Inl (Error (api_message env)) :: thrown + 'r)"
  shows "file_type f = ''application/pdf'' \<and> file_size f \<le> MAX_SIZE \<longrightarrow>
           snd (snd (uploadPDF (\<lambda>r. (evs, Inl ax)) f cb)) = thrown_error"
    and "snd (getEstimate (\<lambda>r. Inl ax) eid) = thrown_error"
    and "snd (listEstimates (\<lambda>r. Inl ax) l off sf) = thrown_error"
    and "snd (deleteEstimate (\<lambda>r. Inl ax) eid) = thrown_error"
    and "snd (getEstimateSummary (\<lambda>r. Inl ax) eid) = thrown_error"
    and "snd (searchMaterialPrices (\<lambda>r. Inl ax) q l) = thrown_error"
    and "snd (getMaterialPrice (\<lambda>r. Inl ax) n) = thrown_error"
    and "snd (getMaterialCategories (\<lambda>r. Inl ax)) = thrown_error"
    and "snd (getPricingStatistics (\<lambda>r. Inl ax)) = thrown_error"
    and "snd (checkHealthStatus (\<lambda>r. Inl ax)) = thrown_error"
  using assms(1) unfolding ax_def thrown_error_def
  by (simp_all add: uploadPDF_def getEstimate_def listEstimates_def deleteEstimate_def
      getEstimateSummary_def searchMaterialPrices_def getMaterialPrice_def
      getMaterialCategories_def getPricingStatistics_def checkHealthStatus_def
      apiClient_def apiClient_progress_def Let_def)

text \<open>
  A server that answers every request with status 404 and the error envelope
  \<^verbatim>\<open>{error: true, status_code: 404, message: 'Estimate not found'}\<close>.
\<close>

definition not_found :: ApiError where
  "not_found = \<lparr>api_error = True, status_code = 404, api_message = ''Estimate not found'',
     details = None, path = None\<rparr>"

definition not_found_error :: thrown where
  "not_found_error =
     AxiosError (Some \<lparr>data = Parsed (Some not_found), http_status = 404\<rparr>) True
       ''Request failed with status code 404''"

lemma show_nat_404: "show_nat 404 = ''404''"
  by (simp add: show_nat.simps digit_char_def)

text \<open>
  C5 does not hold of \<^verbatim>\<open>exportEstimate\<close>. The export asks for its response as a
  \<^verbatim>\<open>Blob\<close>, so the body of an error response reaches \<^verbatim>\<open>handleApiError\<close> as a
  \<^verbatim>\<open>Blob\<close>, in which it finds no message: whatever envelope the server sent, with
  whatever message, the \<^verbatim>\<open>Error\<close> of a failed export says \<^verbatim>\<open>API Error: <status>\<close>. Against
  the server above, \<^verbatim>\<open>exportEstimate('abc123', 'csv')\<close> throws an \<^verbatim>\<open>Error\<close> with the
  message ``API Error: 404'', which is not the message ``Estimate not found'' of the
  envelope, while \<^verbatim>\<open>getEstimate('abc123')\<close> throws one with the envelope's message. The
  \<^verbatim>\<open>Error\<close> of the export is still a normalised one.
\<close>

theorem exportEstimate_envelope_message_lost:
  "snd (exportEstimate
          (\<lambda>r. Inl (AxiosError (Some \<lparr>data = Parsed (Some env), http_status = st\<rparr>) rq msg))
          eid fmt)
     = (Inl (Error (''API Error: '' @ show_nat st)) :: thrown + 'r)
   \<and> api_message not_found = ''Estimate not found''
   \<and> snd (exportEstimate (\<lambda>r. Inl not_found_error) ''abc123'' Csv)
       = (Inl (Error ''API Error: 404'') :: thrown + 'r)
   \<and> snd (getEstimate (\<lambda>r. Inl not_found_error) ''abc123'')
       = (Inl (Error ''Estimate not found'') :: thrown + 'e)
   \<and> normalized (snd (exportEstimate (\<lambda>r. Inl not_found_error) ''abc123'' Csv) :: thrown + 'r)"
  by (simp add: exportEstimate_def getEstimate_def apiClient_def Let_def not_found_error_def
      show_nat_404)
    (simp add: not_found_def)

subsection \<open>Listing with a status filter\<close>

text \<open>
  C10. An empty status filter gives the request (and the outcome) of no filter at all. The
  \<^verbatim>\<open>status_filter\<close> parameter is in the request exactly when the filter is a non-empty
  string, and then carries it; \<^verbatim>\<open>limit\<close> and \<^verbatim>\<open>offset\<close> are always sent, 20 and 0 when
  the caller leaves them out.
\<close>

theorem listEstimates_status_filter:
  "listEstimates send l off (Some []) = listEstimates send l off None
   \<and> (\<exists>req. fst (listEstimates send l off sf) = [req]
        \<and> meth req = GET \<and> url req = ''/api/estimates''
        \<and> (''status_filter'' \<in> fst ` set (params req)) = (\<exists>f. sf = Some f \<and> f \<noteq> [])
        \<and> map_of (params req) ''status_filter'' =
             (case sf of None \<Rightarrow> None | Some f \<Rightarrow> if f \<noteq> [] then Some (PStr f) else None)
        \<and> map_of (params req) ''limit'' = Some (PNum (case l of None \<Rightarrow> Fin 20 | Some v \<Rightarrow> v))
        \<and> map_of (params req) ''offset'' = Some (PNum (case off of None \<Rightarrow> Fin 0 | Some v \<Rightarrow> v)))"
  by (cases sf) (auto simp add: listEstimates_def Let_def)


section \<open>The results page (pages/Results.tsx)\<close>

subsection \<open>State and effects\<close>

datatype SortField = Type | Quantity | Cost | Confidence

datatype SortDirection = Asc | Desc

type_synonym blob = opaque

record ResultsState =
  route_id :: "string option"
  estimate :: "Estimate option"
  loading :: bool
  load_error :: "string option"
  expandedRows :: "nat set"
  sortField :: SortField
  sortDirection :: SortDirection
  exporting :: "export_format option"

text \<open>
  What a handler does beyond updating the component state: the requests it sends through
  the service client, the files it hands to the browser for download (payload and
  suggested file name), and the toasts it shows. A toast call that carries the id of the
  upload toast replaces that toast.
\<close>

datatype toast = ToastError string | ToastSuccess string | ToastLoading string
  | ToastReplace toast

record effects =
  requests :: "request list"
  downloads :: "(blob \<times> string) list"
  toasts :: "toast list"

definition no_effects :: effects where
  "no_effects = \<lparr>requests = [], downloads = [], toasts = []\<rparr>"

subsection \<open>Row expansion\<close>

definition toggleRow :: "ResultsState \<Rightarrow> nat \<Rightarrow> ResultsState \<times> effects" where
  "toggleRow st index =
     (st\<lparr>expandedRows :=
          (if index \<in> expandedRows st then expandedRows st - {index}
           else insert index (expandedRows st))\<rparr>,
      no_effects)"

definition handleSort :: "ResultsState \<Rightarrow> SortField \<Rightarrow> ResultsState \<times> effects" where
  "handleSort st field =
     (if sortField st = field
      then (st\<lparr>sortDirection := (if sortDirection st = Asc then Desc else Asc)\<rparr>, no_effects)
      else (st\<lparr>sortField := field, sortDirection := Asc\<rparr>, no_effects))"

text \<open>
  C9. Toggling a row twice gives back the set of expanded rows (and the whole state);
  one toggle flips the membership of that row and of no other; the rest of the state is
  untouched, and no request is sent.
\<close>

theorem toggleRow_flip:
  "expandedRows (fst (toggleRow (fst (toggleRow st i)) i)) = expandedRows st
   \<and> fst (toggleRow (fst (toggleRow st i)) i) = st
   \<and> (i \<in> expandedRows (fst (toggleRow st i))) = (i \<notin> expandedRows st)
   \<and> (j \<noteq> i \<longrightarrow> (j \<in> expandedRows (fst (toggleRow st i))) = (j \<in> expandedRows st))
   \<and> fst (toggleRow st i) = st\<lparr>expandedRows := expandedRows (fst (toggleRow st i))\<rparr>
   \<and> requests (snd (toggleRow st i)) = []
   \<and> snd (toggleRow st i) = no_effects"
  by (auto simp add: toggleRow_def no_effects_def insert_absorb)

theorem toggleRow_flip_witness:
  "(2::nat) \<noteq> 1
   \<and> (2 \<in> expandedRows (fst (toggleRow \<lparr>route_id = Some ''abc123'', estimate = None,
          loading = False, load_error = None, expandedRows = {0, 2}, sortField = Type,
          sortDirection = Asc, exporting = None\<rparr> 1)))
   \<and> (1 \<in> expandedRows (fst (toggleRow \<lparr>route_id = Some ''abc123'', estimate = None,
          loading = False, load_error = None, expandedRows = {0, 2}, sortField = Type,
          sortDirection = Asc, exporting = None\<rparr> 1)))"
  using toggleRow_flip [where i = 1 and j = 2 and st = "\<lparr>route_id = Some ''abc123'',
      estimate = None, loading = False, load_error = None, expandedRows = {0, 2},
      sortField = Type, sortDirection = Asc, exporting = None\<rparr>"]
  by simp

subsection \<open>Export\<close>

fun toUpperCase_format :: "export_format \<Rightarrow> string" where
  "toUpperCase_format Csv = ''CSV''"
| "toUpperCase_format Json = ''JSON''"
| "toUpperCase_format Pdf = ''PDF''"

text \<open>\<^verbatim>\<open>err instanceof Error ? err.message : fallback\<close>.\<close>

fun message_or :: "string \<Rightarrow> thrown \<Rightarrow> string" where
  "message_or fallback (Error msg) = msg"
| "message_or fallback (AxiosError response request_made msg) = msg"
| "message_or fallback OtherValue = fallback"

text \<open>
  \<^verbatim>\<open>handleExport\<close>, run to its end: \<^verbatim>\<open>exporting\<close> is set to the format while the
  request is awaited and is \<^verbatim>\<open>null\<close> again afterwards.
\<close>

definition handleExport ::
  "(request \<Rightarrow> thrown + blob) \<Rightarrow> ResultsState \<Rightarrow> export_format \<Rightarrow> ResultsState \<times> effects" where
  "handleExport send st format =
     (case (route_id st, estimate st) of
        (Some eid, Some est) \<Rightarrow>
          if eid = [] then (st, no_effects)
          else
            let started = ToastLoading (''Exporting as '' @ toUpperCase_format format @ ''...'')
            in (case exportEstimate send eid format of
                  (reqs, Inr blob) \<Rightarrow>
                    let filename = ''estimate_'' @ estimate_id est @ ''.'' @ format_string format
                    in (st\<lparr>exporting := None\<rparr>,
                        \<lparr>requests = reqs, downloads = [(blob, filename)],
                         toasts = [started, ToastSuccess (''Downloaded '' @ filename)]\<rparr>)
                | (reqs, Inl err) \<Rightarrow>
                    (st\<lparr>exporting := None\<rparr>,
                     \<lparr>requests = reqs, downloads = [],
                      toasts = [started, ToastError (message_or ''Export failed'' err)]\<rparr>))
      | _ \<Rightarrow> (st, no_effects))"

text \<open>
  C7. An export with a route id and a loaded estimate sends one request, to the export
  endpoint of the route id, whose only parameter is \<^verbatim>\<open>format\<close> with one of the three
  values csv, json, pdf. When the payload arrives, it is handed over once, under the name
  \<^verbatim>\<open>estimate_<id>.<format>\<close> built from the estimate's identifier and the same format;
  when the request fails, nothing is handed over.
\<close>

theorem handleExport_request_and_filename:
  assumes "route_id st = Some eid" "eid \<noteq> []" "estimate st = Some est"
  shows "(\<exists>req. requests (snd (handleExport send st format)) = [req]
            \<and> meth req = GET \<and> url req = ''/api/estimate/'' @ eid @ ''/export''
            \<and> params req = [(''format'', PStr (format_string format))]
            \<and> payload req = NoBody
            \<and> (case send req of
                  Inr blob \<Rightarrow>
                    downloads (snd (handleExport send st format)) =
                      [(blob, ''estimate_'' @ estimate_id est @ ''.'' @ format_string format)]
                | Inl err \<Rightarrow> downloads (snd (handleExport send st format)) = []))
         \<and> format_string format \<in> {''csv'', ''json'', ''pdf''}"
  using assms
  by (cases format)
    (auto simp add: handleExport_def exportEstimate_def apiClient_def Let_def
      split: sum.splits)

theorem handleExport_request_and_filename_witness:
  "map url (requests (snd (handleExport (\<lambda>r. Inr ''bytes'')
       \<lparr>route_id = Some ''abc123'',
        estimate = Some \<lparr>estimate_id = ''abc123'', filename = ''report.pdf'', created_at = '''',
          status = ''completed'', items = 0, total_cost = Fin 0, confidence = Fin 1,
          metadata = ''''\<rparr>,
        loading = False, load_error = None, expandedRows = {}, sortField = Type,
        sortDirection = Asc, exporting = None\<rparr> Csv)))
     = [''/api/estimate/abc123/export'']
   \<and> downloads (snd (handleExport (\<lambda>r. Inr ''bytes'')
       \<lparr>route_id = Some ''abc123'',
        estimate = Some \<lparr>estimate_id = ''abc123'', filename = ''report.pdf'', created_at = '''',
          status = ''completed'', items = 0, total_cost = Fin 0, confidence = Fin 1,
          metadata = ''''\<rparr>,
        loading = False, load_error = None, expandedRows = {}, sortField = Type,
        sortDirection = Asc, exporting = None\<rparr> Csv))
     = [(''bytes'', ''estimate_abc123.csv'')]"
  using handleExport_request_and_filename [where send = "\<lambda>r. Inr ''bytes''" and format = Csv
      and eid = "''abc123''"
      and est = "\<lparr>estimate_id = ''abc123'', filename = ''report.pdf'', created_at = '''',
          status = ''completed'', items = 0, total_cost = Fin 0, confidence = Fin 1,
          metadata = ''''\<rparr>"
      and st = "\<lparr>route_id = Some ''abc123'',
        estimate = Some \<lparr>estimate_id = ''abc123'', filename = ''report.pdf'', created_at = '''',
          status = ''completed'', items = 0, total_cost = Fin 0, confidence = Fin 1,
          metadata = ''''\<rparr>,
        loading = False, load_error = None, expandedRows = {}, sortField = Type,
        sortDirection = Asc, exporting = None\<rparr>"]
  by auto


section \<open>The upload page (pages/Upload.tsx)\<close>

subsection \<open>State and handlers\<close>

definition MAX_FILE_SIZE :: nat where
  "MAX_FILE_SIZE = 25 * 1024 * 1024"

definition ACCEPTED_TYPE :: string where
  "ACCEPTED_TYPE = ''application/pdf''"

record UploadState =
  file' :: "File option"
  uploading :: bool
  progress :: number
  result :: "EstimateResponse option"
  error :: "string option"
  dragActive :: bool

definition initial :: UploadState where
  "initial = \<lparr>file' = None, uploading = False, progress = Fin 0, result = None, error = None,
     dragActive = False\<rparr>"

definition validateFile :: "File \<Rightarrow> string option" where
  "validateFile selectedFile =
     (if file_type selectedFile \<noteq> ACCEPTED_TYPE
      then Some ''Invalid file type. Please select a PDF file.''
      else if file_size selectedFile > MAX_FILE_SIZE
      then
        let sizeMB = toFixed2 (js_div (Fin (of_nat (file_size selectedFile))) (Fin (1024 * 1024)))
        in Some (''File size ('' @ sizeMB @ '' MB) exceeds the 25 MB limit.'')
      else None)"

text \<open>
  The body \<^verbatim>\<open>handleFileSelect\<close> and \<^verbatim>\<open>handleDrop\<close> share once the first file of the
  event has been read. \<^verbatim>\<open>if (validationError)\<close> tests a \<^verbatim>\<open>string | null\<close>: \<^verbatim>\<open>null\<close>
  and the empty string are falsy.
\<close>

definition accept_file :: "UploadState \<Rightarrow> File \<Rightarrow> UploadState \<times> effects" where
  "accept_file st selectedFile =
     (st\<lparr>file' := Some selectedFile, error := None, result := None\<rparr>,
      no_effects\<lparr>toasts := [ToastSuccess (''File selected: '' @ file_name selectedFile)]\<rparr>)"

definition select_file :: "UploadState \<Rightarrow> File \<Rightarrow> UploadState \<times> effects" where
  "select_file st selectedFile =
     (case validateFile selectedFile of
        None \<Rightarrow> accept_file st selectedFile
      | Some validationError \<Rightarrow>
          if validationError = [] then accept_file st selectedFile
          else (st\<lparr>error := Some validationError\<rparr>,
                no_effects\<lparr>toasts := [ToastError validationError]\<rparr>))"

text \<open>
  The handlers get the first file of the event (\<open>None\<close>: the event carries no file); the
  drop also clears \<^verbatim>\<open>dragActive\<close>.
\<close>

definition handleFileSelect :: "UploadState \<Rightarrow> File option \<Rightarrow> UploadState \<times> effects" where
  "handleFileSelect st first_file =
     (case first_file of None \<Rightarrow> (st, no_effects) | Some selectedFile \<Rightarrow> select_file st selectedFile)"

definition handleDrop :: "UploadState \<Rightarrow> File option \<Rightarrow> UploadState \<times> effects" where
  "handleDrop st first_file =
     (case first_file of
        None \<Rightarrow> (st\<lparr>dragActive := False\<rparr>, no_effects)
      | Some droppedFile \<Rightarrow> select_file (st\<lparr>dragActive := False\<rparr>) droppedFile)"

datatype drag_event = Dragenter | Dragover | Dragleave | Drag_other

fun handleDrag :: "UploadState \<Rightarrow> drag_event \<Rightarrow> UploadState \<times> effects" where
  "handleDrag st Dragenter = (st\<lparr>dragActive := True\<rparr>, no_effects)"
| "handleDrag st Dragover = (st\<lparr>dragActive := True\<rparr>, no_effects)"
| "handleDrag st Dragleave = (st\<lparr>dragActive := False\<rparr>, no_effects)"
| "handleDrag st Drag_other = (st, no_effects)"

text \<open>
  \<^verbatim>\<open>handleUpload\<close> is asynchronous. Its part before the \<^verbatim>\<open>await\<close>, the progress callback
  it passes to \<^verbatim>\<open>uploadPDF\<close>, and its two continuations (the \<^verbatim>\<open>try\<close> body after the
  \<^verbatim>\<open>await\<close>, and the \<^verbatim>\<open>catch\<close>; each followed by the \<^verbatim>\<open>finally\<close>) are separate steps:
  other handlers can run between them.
\<close>

definition handleUpload_start :: "UploadState \<Rightarrow> UploadState \<times> effects" where
  "handleUpload_start st =
     (case file' st of
        None \<Rightarrow> (st, no_effects\<lparr>toasts := [ToastError ''Please select a file first'']\<rparr>)
      | Some f \<Rightarrow>
          (st\<lparr>uploading := True, progress := Fin 0, error := None, result := None\<rparr>,
           no_effects\<lparr>toasts := [ToastLoading ''Uploading PDF...'']\<rparr>))"

definition onProgress :: "UploadState \<Rightarrow> number \<Rightarrow> UploadState \<times> effects" where
  "onProgress st progressPercent =
     (st\<lparr>progress := progressPercent\<rparr>,
      no_effects\<lparr>toasts :=
        (if js_eq progressPercent (Fin 100)
         then [ToastReplace (ToastLoading ''Processing document...'')] else [])\<rparr>)"

definition handleUpload_resolved :: "UploadState \<Rightarrow> EstimateResponse \<Rightarrow> UploadState \<times> effects" where
  "handleUpload_resolved st response =
     (st\<lparr>result := Some response, progress := Fin 100, uploading := False\<rparr>,
      no_effects\<lparr>toasts := [ToastReplace (ToastSuccess (''Successfully processed '' @
        show_nat (interventions_found response) @ '' interventions!''))]\<rparr>)"

definition handleUpload_rejected :: "UploadState \<Rightarrow> thrown \<Rightarrow> UploadState \<times> effects" where
  "handleUpload_rejected st err =
     (let errorMessage = message_or ''Upload failed'' err in
      (st\<lparr>error := Some errorMessage, uploading := False\<rparr>,
       no_effects\<lparr>toasts := [ToastReplace (ToastError errorMessage)]\<rparr>))"

definition handleReset :: "UploadState \<Rightarrow> UploadState \<times> effects" where
  "handleReset st =
     (st\<lparr>file' := None, uploading := False, progress := Fin 0, result := None, error := None\<rparr>,
      no_effects)"

subsection \<open>Runs\<close>

datatype upload_event =
    FileSelect "File option"
  | Drop "File option"
  | UploadClick
  | Progress number
  | Resolved EstimateResponse
  | Rejected thrown
  | Reset

fun handle :: "UploadState \<Rightarrow> upload_event \<Rightarrow> UploadState \<times> effects" where
  "handle st (FileSelect f) = handleFileSelect st f"
| "handle st (Drop f) = handleDrop st f"
| "handle st UploadClick = handleUpload_start st"
| "handle st (Progress p) = onProgress st p"
| "handle st (Resolved response) = handleUpload_resolved st response"
| "handle st (Rejected err) = handleUpload_rejected st err"
| "handle st Reset = handleReset st"

definition step :: "UploadState \<Rightarrow> upload_event \<Rightarrow> UploadState" where
  "step st ev = fst (handle st ev)"

definition run :: "UploadState \<Rightarrow> upload_event list \<Rightarrow> UploadState" where
  "run st evs = foldl step st evs"

text \<open>
  One click on the upload button with nothing else happening before the response:
  the requests sent, and the events the page sees.
\<close>

definition handleUpload ::
  "(request \<Rightarrow> AxiosProgressEvent list \<times> (thrown + EstimateResponse)) \<Rightarrow> UploadState \<Rightarrow>
    UploadState \<times> request list" where
  "handleUpload send st =
     (case file' st of
        None \<Rightarrow> (step st UploadClick, [])
      | Some f \<Rightarrow>
          (case uploadPDF send f True of
             (reqs, percents, outcome) \<Rightarrow>
               (run st (UploadClick # map Progress percents @
                  [case outcome of Inr response \<Rightarrow> Resolved response | Inl err \<Rightarrow> Rejected err]),
                reqs)))"


subsection \<open>Validation\<close>

lemma validateFile_message: "validateFile f = Some msg \<Longrightarrow> msg \<noteq> []"
  by (auto simp add: validateFile_def Let_def split: if_splits)

lemma validateFile_invalid:
  "file_type f \<noteq> ''application/pdf'' \<or> file_size f > 26214400 \<Longrightarrow> \<exists>msg. validateFile f = Some msg"
  by (auto simp add: validateFile_def Let_def ACCEPTED_TYPE_def MAX_FILE_SIZE_def)

lemma select_file_invalid:
  "validateFile f = Some msg \<Longrightarrow>
   select_file st f = (st\<lparr>error := Some msg\<rparr>, no_effects\<lparr>toasts := [ToastError msg]\<rparr>)"
  using validateFile_message [of f msg] by (simp add: select_file_def)

lemma select_file_valid:
  "validateFile f = None \<Longrightarrow> select_file st f = accept_file st f"
  by (simp add: select_file_def)

text \<open>
  C2. A file that is not a PDF, or is larger than 26,214,400 bytes, fails validation with a
  non-empty message; selecting or dropping it stores the message as the error, leaves the
  selected file and the uploading flag as they were and sends no request, and a later
  click on upload sends what it would have sent before (nothing, when no file had been
  selected); handed to \<^verbatim>\<open>uploadPDF\<close> directly, the file is rejected with an \<^verbatim>\<open>Error\<close>
  before any request is sent.
  A PDF of exactly 26,214,400 bytes passes: it becomes the selected file, and
  \<^verbatim>\<open>uploadPDF\<close> posts it.
\<close>

theorem invalid_file_not_transferred:
  "(file_type f \<noteq> ''application/pdf'' \<or> file_size f > 26214400 \<longrightarrow>
      (\<exists>msg. validateFile f = Some msg \<and> msg \<noteq> []
         \<and> error (fst (handleFileSelect st (Some f))) = Some msg
         \<and> error (fst (handleDrop st (Some f))) = Some msg)
      \<and> file' (fst (handleFileSelect st (Some f))) = file' st
      \<and> file' (fst (handleDrop st (Some f))) = file' st
      \<and> uploading (fst (handleFileSelect st (Some f))) = uploading st
      \<and> uploading (fst (handleDrop st (Some f))) = uploading st
      \<and> requests (snd (handleFileSelect st (Some f))) = []
      \<and> requests (snd (handleDrop st (Some f))) = []
      \<and> snd (handleUpload send' (fst (handleFileSelect st (Some f)))) = snd (handleUpload send' st)
      \<and> snd (handleUpload send' (fst (handleDrop st (Some f)))) = snd (handleUpload send' st)
      \<and> fst (uploadPDF send f cb) = []
      \<and> (\<exists>msg. snd (snd (uploadPDF send f cb)) = Inl (Error msg) \<and> msg \<noteq> []))
   \<and> (file' st = None \<longrightarrow> snd (handleUpload send' st) = [])
   \<and> (file_type f = ''application/pdf'' \<and> file_size f = 26214400 \<longrightarrow>
        validateFile f = None
        \<and> file' (fst (handleFileSelect st (Some f))) = Some f
        \<and> (\<exists>req. fst (uploadPDF send f cb) = [req] \<and> meth req = POST
              \<and> url req = ''/api/upload'' \<and> payload req = FormData [(''file'', f)]))"
proof (intro conjI impI)
  assume inv: "file_type f \<noteq> ''application/pdf'' \<or> file_size f > 26214400"
  from validateFile_invalid [OF inv] obtain msg where msg: "validateFile f = Some msg" ..
  note sel = select_file_invalid [OF msg]
  show "\<exists>msg. validateFile f = Some msg \<and> msg \<noteq> []
         \<and> error (fst (handleFileSelect st (Some f))) = Some msg
         \<and> error (fst (handleDrop st (Some f))) = Some msg"
    using msg validateFile_message [OF msg] by (simp add: handleFileSelect_def handleDrop_def sel)
  show "file' (fst (handleFileSelect st (Some f))) = file' st"
    by (simp add: handleFileSelect_def sel)
  show "file' (fst (handleDrop st (Some f))) = file' st"
    by (simp add: handleDrop_def sel)
  show "uploading (fst (handleFileSelect st (Some f))) = uploading st"
    by (simp add: handleFileSelect_def sel)
  show "uploading (fst (handleDrop st (Some f))) = uploading st"
    by (simp add: handleDrop_def sel)
  show "requests (snd (handleFileSelect st (Some f))) = []"
    by (simp add: handleFileSelect_def sel no_effects_def)
  show "requests (snd (handleDrop st (Some f))) = []"
    by (simp add: handleDrop_def sel no_effects_def)
  show "snd (handleUpload send' (fst (handleFileSelect st (Some f)))) = snd (handleUpload send' st)"
    by (simp add: handleFileSelect_def sel handleUpload_def split: option.splits prod.splits)
  show "snd (handleUpload send' (fst (handleDrop st (Some f)))) = snd (handleUpload send' st)"
    by (simp add: handleDrop_def sel handleUpload_def split: option.splits prod.splits)
  show "fst (uploadPDF send f cb) = []"
    using inv by (auto simp add: uploadPDF_def MAX_SIZE_def)
  show "\<exists>msg. snd (snd (uploadPDF send f cb)) = Inl (Error msg) \<and> msg \<noteq> []"
    using inv by (auto simp add: uploadPDF_def MAX_SIZE_def)
next
  assume "file' st = None"
  then show "snd (handleUpload send' st) = []" by (simp add: handleUpload_def)
next
  assume ok: "file_type f = ''application/pdf'' \<and> file_size f = 26214400"
  then show v: "validateFile f = None"
    by (simp add: validateFile_def ACCEPTED_TYPE_def MAX_FILE_SIZE_def)
  then show "file' (fst (handleFileSelect st (Some f))) = Some f"
    by (simp add: handleFileSelect_def select_file_valid accept_file_def)
  show "\<exists>req. fst (uploadPDF send f cb) = [req] \<and> meth req = POST
          \<and> url req = ''/api/upload'' \<and> payload req = FormData [(''file'', f)]"
    using ok
    by (auto simp add: uploadPDF_def apiClient_progress_def MAX_SIZE_def Let_def
        split: prod.splits sum.splits)
qed

text \<open>The 30 MB scenario of the specification, and the boundary.\<close>

lemma fl64_30: "fl64 30 = Fin 30"
proof -
  have "fl64 30 = Fin (rnd 30)" by (rule fl64_pos_finite) simp_all
  also have "rnd 30 = 30" by (subst rnd_eval [where e = 4]) (simp_all add: rne_def)
  finally show ?thesis .
qed

lemma validate_30MB:
  "validateFile \<lparr>file_name = ''big.pdf'', file_size = 31457280, file_type = ''application/pdf''\<rparr>
    = Some ''File size (30.00 MB) exceeds the 25 MB limit.''"
  by (simp add: validateFile_def ACCEPTED_TYPE_def MAX_FILE_SIZE_def fl64_30 toFixed2_nonneg_def
      show_nat.simps digit_char_def Let_def)

theorem invalid_file_not_transferred_witness:
  "validateFile \<lparr>file_name = ''big.pdf'', file_size = 31457280, file_type = ''application/pdf''\<rparr>
     = Some ''File size (30.00 MB) exceeds the 25 MB limit.''
   \<and> error (fst (handleFileSelect initial (Some \<lparr>file_name = ''big.pdf'', file_size = 31457280,
        file_type = ''application/pdf''\<rparr>))) = Some ''File size (30.00 MB) exceeds the 25 MB limit.''
   \<and> file' (fst (handleFileSelect initial (Some \<lparr>file_name = ''big.pdf'', file_size = 31457280,
        file_type = ''application/pdf''\<rparr>))) = None
   \<and> fst (uploadPDF (\<lambda>r. ([], Inr ())) \<lparr>file_name = ''big.pdf'', file_size = 31457280,
        file_type = ''application/pdf''\<rparr> True) = []
   \<and> file' initial = None
   \<and> snd (handleUpload (\<lambda>r. ([], Inl OtherValue)) (fst (handleFileSelect initial
        (Some \<lparr>file_name = ''big.pdf'', file_size = 31457280, file_type = ''application/pdf''\<rparr>))))
      = []
   \<and> validateFile \<lparr>file_name = ''edge.pdf'', file_size = 26214400, file_type = ''application/pdf''\<rparr>
     = None"
  using invalid_file_not_transferred [where st = initial and cb = True
      and send = "\<lambda>r. ([], Inr ())" and send' = "\<lambda>r. ([], Inl OtherValue)"
      and f = "\<lparr>file_name = ''big.pdf'', file_size = 31457280, file_type = ''application/pdf''\<rparr>"]
    invalid_file_not_transferred [where st = initial and cb = True
      and send = "\<lambda>r. ([], Inr ())"
      and f = "\<lparr>file_name = ''edge.pdf'', file_size = 26214400, file_type = ''application/pdf''\<rparr>"]
    validate_30MB
  by (simp add: initial_def)

subsection \<open>Progress\<close>


lemma step_Progress [simp]: "step st (Progress p) = st\<lparr>progress := p\<rparr>"
  by (simp add: step_def onProgress_def)


lemma run_Progress:
  "run st (map Progress ps) = (if ps = [] then st else st\<lparr>progress := last ps\<rparr>)"
proof (induction ps arbitrary: st)
  case Nil
  show ?case by (simp add: run_def)
next
  case (Cons p ps)
  have "run st (map Progress (p # ps)) = run (st\<lparr>progress := p\<rparr>) (map Progress ps)"
    by (simp add: run_def)
  then show ?case by (simp add: Cons.IH)
qed


lemma js_le_Fin [simp]: "js_le (Fin x) (Fin y) = (x \<le> y)"
  by (auto simp add: js_le_def)

lemma js_le_Fin_PosInfinity [simp]: "js_le (Fin x) PosInfinity"
  by (simp add: js_le_def)

lemma js_le_refl_PosInfinity [simp]: "js_le PosInfinity PosInfinity"
  by (simp add: js_le_def)










text \<open>Example data: a 2 MB PDF, and a success response that found three interventions.\<close>

definition report_pdf :: File where
  "report_pdf = \<lparr>file_name = ''report.pdf'', file_size = 2097152, file_type = ''application/pdf''\<rparr>"

definition photo_png :: File where
  "photo_png = \<lparr>file_name = ''photo.png'', file_size = 1024, file_type = ''image/png''\<rparr>"

definition three_found :: EstimateResponse where
  "three_found = \<lparr>success = True, response_estimate_id = ''abc123'',
     response_filename = ''report.pdf'', response_status = ''completed'',
     response_extraction_method = ''text'', extraction_confidence = Fin 1,
     interventions_found = 3, response_total_cost = Fin 0,
     overall_confidence = Fin 1, processing_time_ms = Fin 0, verification = None,
     response_metadata = [], response_items = []\<rparr>"

lemma validate_report_pdf [simp]: "validateFile report_pdf = None"
  by (simp add: validateFile_def report_pdf_def ACCEPTED_TYPE_def MAX_FILE_SIZE_def)

lemma validate_photo_png [simp]:
  "validateFile photo_png = Some ''Invalid file type. Please select a PDF file.''"
  by (simp add: validateFile_def photo_png_def ACCEPTED_TYPE_def)

lemmas run_simps = run_def step_def handleFileSelect_def handleDrop_def select_file_def
  accept_file_def handleUpload_start_def onProgress_def handleUpload_resolved_def
  handleUpload_rejected_def handleReset_def initial_def



subsection \<open>Result and failure reason\<close>

lemma run_append: "run st (xs @ ys) = run (run st xs) ys"
  by (simp add: run_def)

lemma run_Cons: "run st (x # xs) = run (step st x) xs"
  by (simp add: run_def)

lemma run_transfer:
  assumes "file' st = Some f"
  shows "run st (UploadClick # map Progress ps) =
    st\<lparr>uploading := True, progress := (if ps = [] then Fin 0 else last ps), error := None,
       result := None\<rparr>"
  using assms by (simp add: run_Cons run_Progress) (simp add: step_def handleUpload_start_def)

lemma run_upload_resolved:
  assumes "file' st = Some g"
  shows "let s = run st (UploadClick # map Progress ps @ [Resolved response]) in
      \<not> uploading s \<and> result s = Some response \<and> error s = None"
proof -
  have a: "UploadClick # map Progress ps @ [Resolved response] =
      (UploadClick # map Progress ps) @ [Resolved response]" by simp
  show ?thesis
    unfolding a run_append run_transfer [OF assms]
    by (simp add: run_def step_def handleUpload_resolved_def)
qed

lemma run_upload_rejected:
  assumes "file' st = Some g"
  shows "let s = run st (UploadClick # map Progress ps @ [Rejected err]) in
      \<not> uploading s \<and> result s = None \<and> error s = Some (message_or ''Upload failed'' err)"
proof -
  have a: "UploadClick # map Progress ps @ [Rejected err] =
      (UploadClick # map Progress ps) @ [Rejected err]" by simp
  show ?thesis
    unfolding a run_append run_transfer [OF assms]
    by (simp add: run_def step_def handleUpload_rejected_def Let_def)
qed

lemma handleUpload_exactly_one:
  assumes "file' st = Some g"
  shows "let s = fst (handleUpload send st) in
      \<not> uploading s \<and> (result s = None) \<noteq> (error s = None)"
proof -
  obtain reqs percents outcome where u: "uploadPDF send g True = (reqs, percents, outcome)"
    by (cases "uploadPDF send g True")
  show ?thesis
  proof (cases outcome)
    case (Inl err)
    then have "fst (handleUpload send st) = run st (UploadClick # map Progress percents @ [Rejected err])"
      by (simp add: handleUpload_def assms u)
    then show ?thesis using run_upload_rejected [OF assms, of percents err] by (simp add: Let_def)
  next
    case (Inr response)
    then have "fst (handleUpload send st)
        = run st (UploadClick # map Progress percents @ [Resolved response])"
      by (simp add: handleUpload_def assms u)
    then show ?thesis
      using run_upload_resolved [OF assms, of percents response] by (simp add: Let_def)
  qed
qed

text \<open>
  C6 (as the code has it). The page keeps no lifecycle state; what it keeps is the result
  and a single error field. After a reset, and after a file has been accepted, neither is
  set. For an upload that runs from the click to its response with only progress events in
  between (as \<^verbatim>\<open>handleUpload\<close> runs when nothing interleaves), neither is set while it is
  under way, and exactly one is set when the response has arrived: the result on success,
  the error on failure. A failed validation stores its
  message in the same error field and changes nothing else, so the error can be set while
  no upload has been attempted.
\<close>

theorem result_and_error_fields:
  "(let s = fst (handleReset st) in
      result s = None \<and> error s = None \<and> file' s = None \<and> \<not> uploading s)
   \<and> (validateFile f = None \<longrightarrow>
        (let s = fst (handleFileSelect st (Some f)) in
           result s = None \<and> error s = None \<and> file' s = Some f)
        \<and> (let s = fst (handleDrop st (Some f)) in
             result s = None \<and> error s = None \<and> file' s = Some f))
   \<and> (file' st \<noteq> None \<longrightarrow>
        (let s = run st (UploadClick # map Progress ps) in
           uploading s \<and> result s = None \<and> error s = None)
        \<and> (let s = run st (UploadClick # map Progress ps @ [Resolved response]) in
             \<not> uploading s \<and> result s = Some response \<and> error s = None)
        \<and> (let s = run st (UploadClick # map Progress ps @ [Rejected err]) in
             \<not> uploading s \<and> result s = None
             \<and> error s = Some (message_or ''Upload failed'' err))
        \<and> (let s = fst (handleUpload send st) in
             \<not> uploading s \<and> (result s = None) \<noteq> (error s = None)))
   \<and> (validateFile f = Some msg \<longrightarrow>
        (let s = fst (handleFileSelect st (Some f)) in
           error s = Some msg \<and> result s = result st \<and> file' s = file' st
           \<and> uploading s = uploading st \<and> progress s = progress st))"
proof (intro conjI impI)
  show "let s = fst (handleReset st) in
      result s = None \<and> error s = None \<and> file' s = None \<and> \<not> uploading s"
    by (simp add: handleReset_def)
next
  assume v: "validateFile f = None"
  show "let s = fst (handleFileSelect st (Some f)) in
      result s = None \<and> error s = None \<and> file' s = Some f"
    by (simp add: handleFileSelect_def select_file_valid [OF v] accept_file_def)
  show "let s = fst (handleDrop st (Some f)) in
      result s = None \<and> error s = None \<and> file' s = Some f"
    by (simp add: handleDrop_def select_file_valid [OF v] accept_file_def)
next
  assume "file' st \<noteq> None"
  then obtain g where g: "file' st = Some g" by auto
  note t = run_transfer [OF g]
  show "let s = run st (UploadClick # map Progress ps) in
      uploading s \<and> result s = None \<and> error s = None"
    by (simp add: t)
  show "let s = run st (UploadClick # map Progress ps @ [Resolved response]) in
      \<not> uploading s \<and> result s = Some response \<and> error s = None"
    by (rule run_upload_resolved [OF g])
  show "let s = run st (UploadClick # map Progress ps @ [Rejected err]) in
      \<not> uploading s \<and> result s = None \<and> error s = Some (message_or ''Upload failed'' err)"
    by (rule run_upload_rejected [OF g])
  show "let s = fst (handleUpload send st) in
      \<not> uploading s \<and> (result s = None) \<noteq> (error s = None)"
    by (rule handleUpload_exactly_one [OF g])
next
  assume v: "validateFile f = Some msg"
  show "let s = fst (handleFileSelect st (Some f)) in
      error s = Some msg \<and> result s = result st \<and> file' s = file' st
      \<and> uploading s = uploading st \<and> progress s = progress st"
    by (simp add: handleFileSelect_def select_file_invalid [OF v])
qed

text \<open>
  The scenario of the specification: a valid 2 MB PDF, progress 0, 25, 50, 100, then a
  success response; the same transfer ending in a network error; and a PNG offered to the
  idle page.
\<close>

theorem result_and_error_fields_witness:
  "validateFile report_pdf = None
   \<and> file' (fst (handleFileSelect initial (Some report_pdf))) = Some report_pdf
   \<and> result (run (fst (handleFileSelect initial (Some report_pdf)))
        (UploadClick # map Progress [Fin 0, Fin 25, Fin 50, Fin 100] @ [Resolved three_found]))
      = Some three_found
   \<and> error (run (fst (handleFileSelect initial (Some report_pdf)))
        (UploadClick # map Progress [Fin 0, Fin 25, Fin 50, Fin 100] @ [Resolved three_found]))
      = None
   \<and> error (run (fst (handleFileSelect initial (Some report_pdf)))
        (UploadClick # map Progress [Fin 0, Fin 25, Fin 50, Fin 100] @
          [Rejected (Error ''Network error: Unable to reach the server.'')]))
      = Some ''Network error: Unable to reach the server.''
   \<and> validateFile photo_png = Some ''Invalid file type. Please select a PDF file.''
   \<and> error (fst (handleFileSelect initial (Some photo_png)))
      = Some ''Invalid file type. Please select a PDF file.''"
proof -
  note T1 = result_and_error_fields [where st = initial and f = report_pdf]
  note T2 = result_and_error_fields [where st = "fst (handleFileSelect initial (Some report_pdf))"
        and ps = "[Fin 0, Fin 25, Fin 50, Fin 100]" and response = three_found
        and err = "Error ''Network error: Unable to reach the server.''"]
  note T3 = result_and_error_fields [where st = initial and f = photo_png
        and msg = "''Invalid file type. Please select a PDF file.''"]
  have f: "file' (fst (handleFileSelect initial (Some report_pdf))) = Some report_pdf"
    using T1 validate_report_pdf by (simp add: Let_def)
  then have g: "file' (fst (handleFileSelect initial (Some report_pdf))) \<noteq> None" by simp
  have "result (run (fst (handleFileSelect initial (Some report_pdf)))
        (UploadClick # map Progress [Fin 0, Fin 25, Fin 50, Fin 100] @ [Resolved three_found]))
      = Some three_found
    \<and> error (run (fst (handleFileSelect initial (Some report_pdf)))
        (UploadClick # map Progress [Fin 0, Fin 25, Fin 50, Fin 100] @ [Resolved three_found]))
      = None
    \<and> error (run (fst (handleFileSelect initial (Some report_pdf)))
        (UploadClick # map Progress [Fin 0, Fin 25, Fin 50, Fin 100] @
          [Rejected (Error ''Network error: Unable to reach the server.'')]))
      = Some (message_or ''Upload failed'' (Error ''Network error: Unable to reach the server.''))"
    using T2 g unfolding Let_def by blast
  moreover have "error (fst (handleFileSelect initial (Some photo_png)))
      = Some ''Invalid file type. Please select a PDF file.''"
    using T3 validate_photo_png unfolding Let_def by blast
  ultimately show ?thesis using f by simp
qed

text \<open>
  The claim fails on the code. Offering a 30 MB PDF to the idle page leaves it without a
  file, not uploading and without a result, and yet with the error set. Dropping a PNG
  while a transfer is under way sets the error during the transfer, and after the success
  response both the result and the error are set.
\<close>

theorem result_and_error_counterexample:
  "file' (run initial [FileSelect (Some \<lparr>file_name = ''big.pdf'', file_size = 31457280,
       file_type = ''application/pdf''\<rparr>)]) = None
   \<and> \<not> uploading (run initial [FileSelect (Some \<lparr>file_name = ''big.pdf'', file_size = 31457280,
       file_type = ''application/pdf''\<rparr>)])
   \<and> result (run initial [FileSelect (Some \<lparr>file_name = ''big.pdf'', file_size = 31457280,
       file_type = ''application/pdf''\<rparr>)]) = None
   \<and> error (run initial [FileSelect (Some \<lparr>file_name = ''big.pdf'', file_size = 31457280,
       file_type = ''application/pdf''\<rparr>)])
      = Some ''File size (30.00 MB) exceeds the 25 MB limit.''
   \<and> uploading (run initial [FileSelect (Some report_pdf), UploadClick, Progress (Fin 40),
        Drop (Some photo_png)])
   \<and> error (run initial [FileSelect (Some report_pdf), UploadClick, Progress (Fin 40),
        Drop (Some photo_png)]) = Some ''Invalid file type. Please select a PDF file.''
   \<and> result (run initial [FileSelect (Some report_pdf), UploadClick, Progress (Fin 40),
        Drop (Some photo_png), Progress (Fin 100), Resolved three_found]) = Some three_found
   \<and> error (run initial [FileSelect (Some report_pdf), UploadClick, Progress (Fin 40),
        Drop (Some photo_png), Progress (Fin 100), Resolved three_found])
      = Some ''Invalid file type. Please select a PDF file.''"
  by (simp add: run_simps validate_30MB)


section \<open>The sorted view (pages/Results.tsx)\<close>

subsection \<open>Arrays in the store\<close>

text \<open>
  The store maps an address to the array that lives there; a fresh array gets the next
  address. \<^verbatim>\<open>[...xs]\<close> allocates a copy; \<^verbatim>\<open>Array.prototype.sort\<close> reorders the array at
  its address.
\<close>

type_synonym store = "EstimateItem list list"

definition alloc :: "store \<Rightarrow> EstimateItem list \<Rightarrow> store \<times> addr" where
  "alloc st xs = (st @ [xs], length st)"

text \<open>
  \<^verbatim>\<open>Array.prototype.sort\<close> with a compare function. ECMAScript fixes what the function's
  result means (a positive number: the first argument goes after the second; NaN counts
  as zero), demands a stable sort, and leaves the algorithm to the engine. The model is an
  insertion sort that moves an element past another one only on a positive result; for a
  consistent compare function every stable sort gives the same list
  (\<open>sort_list_determined\<close> below).
\<close>

definition positive :: "number \<Rightarrow> bool" where
  "positive v = js_lt (Fin 0) v"

fun insert_sorted :: "('a \<Rightarrow> 'a \<Rightarrow> number) \<Rightarrow> 'a \<Rightarrow> 'a list \<Rightarrow> 'a list" where
  "insert_sorted cmp x [] = [x]"
| "insert_sorted cmp x (y # ys) =
     (if positive (cmp x y) then y # insert_sorted cmp x ys else x # y # ys)"

fun sort_list :: "('a \<Rightarrow> 'a \<Rightarrow> number) \<Rightarrow> 'a list \<Rightarrow> 'a list" where
  "sort_list cmp [] = []"
| "sort_list cmp (x # xs) = insert_sorted cmp x (sort_list cmp xs)"

definition Array_sort :: "(EstimateItem \<Rightarrow> EstimateItem \<Rightarrow> number) \<Rightarrow> store \<Rightarrow> addr \<Rightarrow> store" where
  "Array_sort cmp st a = st[a := sort_list cmp (st ! a)]"

subsection \<open>The compare function and the view\<close>

text \<open>
  \<^verbatim>\<open>String.prototype.localeCompare\<close> belongs to the engine's collation; it is the
  parameter \<open>localeCompare\<close>. The \<^verbatim>\<open>typeof aValue === 'string'\<close> test holds for the type
  column and for no other one.
\<close>

fun compare_items ::
  "(string \<Rightarrow> string \<Rightarrow> number) \<Rightarrow> SortField \<Rightarrow> SortDirection \<Rightarrow>
    EstimateItem \<Rightarrow> EstimateItem \<Rightarrow> number" where
  "compare_items localeCompare Type direction a b =
     (if direction = Asc then localeCompare (itype (intervention a)) (itype (intervention b))
      else localeCompare (itype (intervention b)) (itype (intervention a)))"
| "compare_items localeCompare Quantity direction a b =
     (if direction = Asc
      then js_minus (Intervention.quantity (intervention a)) (Intervention.quantity (intervention b))
      else js_minus (Intervention.quantity (intervention b)) (Intervention.quantity (intervention a)))"
| "compare_items localeCompare Cost direction a b =
     (if direction = Asc then js_minus (EstimateItem.total_cost a) (EstimateItem.total_cost b)
      else js_minus (EstimateItem.total_cost b) (EstimateItem.total_cost a))"
| "compare_items localeCompare Confidence direction a b =
     (if direction = Asc
      then js_minus (Intervention.confidence (intervention a)) (Intervention.confidence (intervention b))
      else js_minus (Intervention.confidence (intervention b)) (Intervention.confidence (intervention a)))"

text \<open>
  The \<^verbatim>\<open>useMemo\<close> callback: the new store and the address of the array it returns.
\<close>

definition sortedItems ::
  "(string \<Rightarrow> string \<Rightarrow> number) \<Rightarrow> store \<Rightarrow> ResultsState \<Rightarrow> store \<times> addr" where
  "sortedItems localeCompare st page =
     (case estimate page of
        None \<Rightarrow> alloc st []
      | Some e \<Rightarrow>
          (case alloc st (st ! items e) of
             (st1, a) \<Rightarrow>
               (Array_sort (compare_items localeCompare (sortField page) (sortDirection page)) st1 a,
                a)))"

subsection \<open>Insertion under a consistent comparison\<close>

lemma mset_insert_sorted [simp]: "mset (insert_sorted cmp x ys) = add_mset x (mset ys)"
  by (induction ys) simp_all

lemma mset_sort_list [simp]: "mset (sort_list cmp xs) = mset xs"
  by (induction xs) simp_all

lemma set_insert_sorted [simp]: "set (insert_sorted cmp x ys) = insert x (set ys)"
  by (induction ys) auto

lemma set_sort_list [simp]: "set (sort_list cmp xs) = set xs"
  by (induction xs) simp_all

text \<open>
  \<open>consistent A cmp\<close>: on the elements of \<open>A\<close>, ``goes after'' is asymmetric, and ``does not
  go after'' is transitive.
\<close>

definition consistent :: "'a set \<Rightarrow> ('a \<Rightarrow> 'a \<Rightarrow> number) \<Rightarrow> bool" where
  "consistent A cmp =
     ((\<forall>x\<in>A. \<forall>y\<in>A. positive (cmp x y) \<longrightarrow> \<not> positive (cmp y x))
      \<and> (\<forall>x\<in>A. \<forall>y\<in>A. \<forall>z\<in>A.
            \<not> positive (cmp x y) \<longrightarrow> \<not> positive (cmp y z) \<longrightarrow> \<not> positive (cmp x z)))"

lemma consistent_asym:
  assumes "consistent A cmp" "x \<in> A" "y \<in> A" "positive (cmp x y)"
  shows "\<not> positive (cmp y x)"
proof -
  from assms(1) [unfolded consistent_def]
  have "\<forall>x\<in>A. \<forall>y\<in>A. positive (cmp x y) \<longrightarrow> \<not> positive (cmp y x)" by (rule conjunct1)
  then have "\<forall>y\<in>A. positive (cmp x y) \<longrightarrow> \<not> positive (cmp y x)" using assms(2) by (rule bspec)
  then have "positive (cmp x y) \<longrightarrow> \<not> positive (cmp y x)" using assms(3) by (rule bspec)
  then show ?thesis using assms(4) by (rule mp)
qed

lemma consistent_trans:
  assumes "consistent A cmp" "x \<in> A" "y \<in> A" "z \<in> A"
    and "\<not> positive (cmp x y)" "\<not> positive (cmp y z)"
  shows "\<not> positive (cmp x z)"
proof -
  from assms(1) [unfolded consistent_def]
  have "\<forall>x\<in>A. \<forall>y\<in>A. \<forall>z\<in>A.
      \<not> positive (cmp x y) \<longrightarrow> \<not> positive (cmp y z) \<longrightarrow> \<not> positive (cmp x z)"
    by (rule conjunct2)
  then have "\<forall>y\<in>A. \<forall>z\<in>A.
      \<not> positive (cmp x y) \<longrightarrow> \<not> positive (cmp y z) \<longrightarrow> \<not> positive (cmp x z)"
    using assms(2) by (rule bspec)
  then have "\<forall>z\<in>A. \<not> positive (cmp x y) \<longrightarrow> \<not> positive (cmp y z) \<longrightarrow> \<not> positive (cmp x z)"
    using assms(3) by (rule bspec)
  then have "\<not> positive (cmp x y) \<longrightarrow> \<not> positive (cmp y z) \<longrightarrow> \<not> positive (cmp x z)"
    using assms(4) by (rule bspec)
  then have "\<not> positive (cmp y z) \<longrightarrow> \<not> positive (cmp x z)" using assms(5) by (rule mp)
  then show ?thesis using assms(6) by (rule mp)
qed

lemma sorted_insert_sorted:
  assumes "consistent A cmp" "x \<in> A" "set ys \<subseteq> A"
    and "sorted_wrt (\<lambda>a b. \<not> positive (cmp a b)) ys"
  shows "sorted_wrt (\<lambda>a b. \<not> positive (cmp a b)) (insert_sorted cmp x ys)"
  using assms(3,4)
proof (induction ys)
  case Nil
  show ?case by simp
next
  case (Cons y ys)
  from Cons.prems have y: "y \<in> A" and ys: "set ys \<subseteq> A"
    and below: "\<forall>z\<in>set ys. \<not> positive (cmp y z)"
    and sorted: "sorted_wrt (\<lambda>a b. \<not> positive (cmp a b)) ys"
    by simp_all
  note ih = Cons.IH [OF ys sorted]
  show ?case
  proof (cases "positive (cmp x y)")
    case True
    have "\<not> positive (cmp y x)" using assms(1,2) y True by (rule consistent_asym)
    then have "\<forall>z\<in>set (insert_sorted cmp x ys). \<not> positive (cmp y z)"
      using below by simp
    then show ?thesis using True ih by simp
  next
    case False
    have "\<not> positive (cmp x z)" if "z \<in> set ys" for z
    proof -
      have z: "z \<in> A" using that ys by (rule subsetD [rotated])
      have yz: "\<not> positive (cmp y z)" using below that by (rule bspec)
      show ?thesis using assms(1,2) y z False yz by (rule consistent_trans)
    qed
    then have "\<forall>z\<in>set (y # ys). \<not> positive (cmp x z)" using False by simp
    then show ?thesis using False Cons.prems(2) by (simp del: set_simps)
  qed
qed

lemma sorted_sort_list:
  assumes "consistent A cmp" "set xs \<subseteq> A"
  shows "sorted_wrt (\<lambda>a b. \<not> positive (cmp a b)) (sort_list cmp xs)"
  using assms(2)
proof (induction xs)
  case Nil
  show ?case by simp
next
  case (Cons x xs)
  then have "x \<in> A" "set (sort_list cmp xs) \<subseteq> A"
      "sorted_wrt (\<lambda>a b. \<not> positive (cmp a b)) (sort_list cmp xs)"
    by simp_all
  then show ?case using sorted_insert_sorted [OF assms(1)] by simp
qed

text \<open>
  Stability: elements none of which goes after another one (\<open>P\<close> picks them) keep their
  order.
\<close>

lemma filter_insert_sorted:
  assumes "\<forall>y\<in>set ys. P x \<and> P y \<longrightarrow> \<not> positive (cmp x y)"
  shows "filter P (insert_sorted cmp x ys) = (if P x then x # filter P ys else filter P ys)"
  using assms
proof (induction ys)
  case Nil
  show ?case by simp
next
  case (Cons y ys)
  then have ih: "filter P (insert_sorted cmp x ys) = (if P x then x # filter P ys else filter P ys)"
    by simp
  show ?case
  proof (cases "positive (cmp x y)")
    case True
    then have "\<not> (P x \<and> P y)" using Cons.prems by simp
    then show ?thesis using True by (cases "P x") (simp_all add: ih)
  next
    case False
    then show ?thesis by simp
  qed
qed

lemma filter_sort_list:
  assumes "\<forall>x\<in>set xs. \<forall>y\<in>set xs. P x \<and> P y \<longrightarrow> \<not> positive (cmp x y)"
  shows "filter P (sort_list cmp xs) = filter P xs"
  using assms
proof (induction xs)
  case Nil
  show ?case by simp
next
  case (Cons x xs)
  then have ih: "filter P (sort_list cmp xs) = filter P xs" by simp
  have "\<forall>y\<in>set (sort_list cmp xs). P x \<and> P y \<longrightarrow> \<not> positive (cmp x y)"
    using Cons.prems by simp
  then show ?case by (simp add: filter_insert_sorted ih)
qed


text \<open>
  The order is the one every conforming engine produces. Two elements are tied when
  neither goes after the other. A rearrangement of \<open>xs\<close> that is in order and keeps tied
  elements in the order they have in \<open>xs\<close> is the list the model computes.
\<close>

definition tied :: "('a \<Rightarrow> 'a \<Rightarrow> number) \<Rightarrow> 'a \<Rightarrow> 'a \<Rightarrow> bool" where
  "tied cmp x y = (\<not> positive (cmp x y) \<and> \<not> positive (cmp y x))"

lemma consistent_refl:
  assumes "consistent A cmp" "x \<in> A"
  shows "\<not> positive (cmp x x)"
proof
  assume p: "positive (cmp x x)"
  have "\<not> positive (cmp x x)" using assms(1,2,2) p by (rule consistent_asym)
  then show False using p by (rule notE)
qed

lemma head_not_after:
  assumes "consistent A cmp" "y \<in> A" "sorted_wrt (\<lambda>a b. \<not> positive (cmp a b)) (y # ys)"
    and "z \<in> set (y # ys)"
  shows "\<not> positive (cmp y z)"
proof (cases "z = y")
  case True
  show ?thesis unfolding True by (rule consistent_refl [OF assms(1,2)])
next
  case False
  then have "z \<in> set ys" using assms(4) by simp
  then show ?thesis using assms(3) by simp
qed

lemma in_order_stable_unique:
  assumes "consistent A cmp"
  shows "set ys \<subseteq> A \<Longrightarrow> mset ys = mset zs \<Longrightarrow>
    sorted_wrt (\<lambda>a b. \<not> positive (cmp a b)) ys \<Longrightarrow>
    sorted_wrt (\<lambda>a b. \<not> positive (cmp a b)) zs \<Longrightarrow>
    (\<forall>x\<in>A. filter (tied cmp x) ys = filter (tied cmp x) zs) \<Longrightarrow> ys = zs"
proof (induction ys arbitrary: zs)
  case Nil
  then show ?case by simp
next
  case (Cons y ys)
  have "zs \<noteq> []"
  proof
    assume "zs = []"
    with Cons.prems(2) show False by simp
  qed
  then obtain z zs' where zs: "zs = z # zs'" by (cases zs) auto
  have sets: "set (y # ys) = set (z # zs')"
    using Cons.prems(2) unfolding zs by (rule mset_eq_setD)
  have y: "y \<in> A" using Cons.prems(1) by simp
  have "z \<in> set (z # zs')" by simp
  then have z_in: "z \<in> set (y # ys)" by (simp only: sets)
  have "y \<in> set (y # ys)" by simp
  then have y_in: "y \<in> set (z # zs')" by (simp only: sets)
  have z: "z \<in> A" using z_in Cons.prems(1) by (rule subsetD [rotated])
  have yz: "\<not> positive (cmp y z)"
    using assms y Cons.prems(3) z_in by (rule head_not_after)
  have zy: "\<not> positive (cmp z y)"
    using assms z Cons.prems(4) [unfolded zs] y_in by (rule head_not_after)
  have yy: "tied cmp y y" using consistent_refl [OF assms y] by (simp add: tied_def)
  have t: "tied cmp y z" using yz zy by (simp add: tied_def)
  have "filter (tied cmp y) (y # ys) = filter (tied cmp y) (z # zs')"
    using Cons.prems(5) y unfolding zs by (rule bspec)
  then have eq: "y = z" using yy t by simp
  have "ys = zs'"
  proof (rule Cons.IH)
    show "set ys \<subseteq> A" using Cons.prems(1) by simp
    show "mset ys = mset zs'" using Cons.prems(2) by (simp add: zs eq)
    show "sorted_wrt (\<lambda>a b. \<not> positive (cmp a b)) ys" using Cons.prems(3) by simp
    show "sorted_wrt (\<lambda>a b. \<not> positive (cmp a b)) zs'" using Cons.prems(4) by (simp add: zs)
    show "\<forall>x\<in>A. filter (tied cmp x) ys = filter (tied cmp x) zs'"
    proof
      fix x
      assume "x \<in> A"
      with Cons.prems(5) have "filter (tied cmp x) (y # ys) = filter (tied cmp x) (y # zs')"
        unfolding zs eq by (rule bspec)
      then show "filter (tied cmp x) ys = filter (tied cmp x) zs'"
        by (cases "tied cmp x y") simp_all
    qed
  qed
  then show ?case by (simp add: zs eq)
qed

lemma sort_list_determined:
  assumes "consistent (set xs) cmp"
    and "mset ys = mset xs"
    and "sorted_wrt (\<lambda>a b. \<not> positive (cmp a b)) ys"
    and "\<forall>x\<in>set xs. filter (tied cmp x) ys = filter (tied cmp x) xs"
  shows "ys = sort_list cmp xs"
  using assms(1)
proof (rule in_order_stable_unique)
  show "set ys \<subseteq> set xs" using mset_eq_setD [OF assms(2)] by simp
  show "mset ys = mset (sort_list cmp xs)" using assms(2) by simp
  show "sorted_wrt (\<lambda>a b. \<not> positive (cmp a b)) ys" by (rule assms(3))
  show "sorted_wrt (\<lambda>a b. \<not> positive (cmp a b)) (sort_list cmp xs)"
    using assms(1) by (rule sorted_sort_list) simp
  show "\<forall>x\<in>set xs. filter (tied cmp x) ys = filter (tied cmp x) (sort_list cmp xs)"
  proof
    fix x
    assume x: "x \<in> set xs"
    have "filter (tied cmp x) (sort_list cmp xs) = filter (tied cmp x) xs"
    proof (rule filter_sort_list, intro ballI impI)
      fix a b
      assume a: "a \<in> set xs" and b: "b \<in> set xs" and "tied cmp x a \<and> tied cmp x b"
      then have "\<not> positive (cmp a x)" "\<not> positive (cmp x b)" by (simp_all add: tied_def)
      with assms(1) a x b show "\<not> positive (cmp a b)" by (rule consistent_trans)
    qed
    then show "filter (tied cmp x) ys = filter (tied cmp x) (sort_list cmp xs)"
      using assms(4) x by simp
  qed
qed

subsection \<open>The compare function is consistent\<close>

text \<open>The numeric columns of an item: what a JSON response can hold (no NaN).\<close>

definition numeric_keys :: "EstimateItem \<Rightarrow> bool" where
  "numeric_keys i =
     (json_number (Intervention.quantity (intervention i))
      \<and> json_number (EstimateItem.total_cost i)
      \<and> json_number (Intervention.confidence (intervention i)))"

lemma positive_js_minus:
  assumes "json_number a" "json_number b"
  shows "positive (js_minus a b) = js_lt b a"
proof (cases a)
  case (Fin x)
  note a = this
  show ?thesis
  proof (cases b)
    case (Fin y)
    have "binary64 x" "binary64 y" using assms a Fin by simp_all
    then have "js_lt (Fin 0) (js_minus (Fin x) (Fin y)) = (y < x)" by (rule js_minus_pos_iff)
    then show ?thesis unfolding positive_def a Fin by simp
  qed (use assms a in \<open>simp_all add: positive_def\<close>)
next
  case PosInfinity
  then show ?thesis using assms by (cases b) (simp_all add: positive_def)
next
  case NegInfinity
  then show ?thesis using assms by (cases b) (simp_all add: positive_def)
next
  case NaN
  then show ?thesis using assms by simp
qed

lemma js_lt_asym: "js_lt a b \<Longrightarrow> \<not> js_lt b a"
  by (cases a; cases b) simp_all

lemma js_lt_negtrans:
  "json_number a \<Longrightarrow> json_number b \<Longrightarrow> json_number c \<Longrightarrow>
   \<not> js_lt b a \<Longrightarrow> \<not> js_lt c b \<Longrightarrow> \<not> js_lt c a"
  by (cases a; cases b; cases c) simp_all

lemma js_le_iff_not_lt: "json_number a \<Longrightarrow> json_number b \<Longrightarrow> js_le a b = (\<not> js_lt b a)"
  by (cases a; cases b) (auto simp add: js_le_def)

lemma js_lt_irrefl [simp]: "\<not> js_lt a a"
  by (cases a) simp_all

text \<open>The key an item is sorted by, and what ``in order'' means for a column and a direction.\<close>

datatype sort_key = KString string | KNumber number

fun key_of :: "SortField \<Rightarrow> EstimateItem \<Rightarrow> sort_key" where
  "key_of Type i = KString (itype (intervention i))"
| "key_of Quantity i = KNumber (Intervention.quantity (intervention i))"
| "key_of Cost i = KNumber (EstimateItem.total_cost i)"
| "key_of Confidence i = KNumber (Intervention.confidence (intervention i))"

fun key_le :: "(string \<Rightarrow> string \<Rightarrow> number) \<Rightarrow> sort_key \<Rightarrow> sort_key \<Rightarrow> bool" where
  "key_le localeCompare (KString s) (KString t) = (\<not> positive (localeCompare s t))"
| "key_le localeCompare (KNumber v) (KNumber w) = js_le v w"
| "key_le localeCompare _ _ = False"

definition in_order ::
  "(string \<Rightarrow> string \<Rightarrow> number) \<Rightarrow> SortField \<Rightarrow> SortDirection \<Rightarrow>
    EstimateItem \<Rightarrow> EstimateItem \<Rightarrow> bool" where
  "in_order localeCompare field direction a b =
     (if direction = Asc then key_le localeCompare (key_of field a) (key_of field b)
      else key_le localeCompare (key_of field b) (key_of field a))"

lemma key_number_cases:
  assumes "field \<noteq> Type" "numeric_keys a"
  obtains v where "key_of field a = KNumber v" "json_number v"
  using assms by (cases field) (simp_all add: numeric_keys_def)

lemma compare_items_number:
  assumes "field \<noteq> Type" "key_of field a = KNumber v" "key_of field b = KNumber w"
  shows "compare_items localeCompare field direction a b =
    (if direction = Asc then js_minus v w else js_minus w v)"
  using assms by (cases field) simp_all

lemma not_after_iff_in_order:
  assumes "numeric_keys a" "numeric_keys b"
  shows "(\<not> positive (compare_items localeCompare field direction a b))
    = in_order localeCompare field direction a b"
proof (cases "field = Type")
  case True
  then show ?thesis by (simp add: in_order_def)
next
  case False
  from key_number_cases [OF False assms(1)] obtain v
    where v: "key_of field a = KNumber v" "json_number v" .
  from key_number_cases [OF False assms(2)] obtain w
    where w: "key_of field b = KNumber w" "json_number w" .
  show ?thesis
    unfolding compare_items_number [OF False v(1) w(1)] in_order_def v(1) w(1)
    by (simp add: positive_js_minus v(2) w(2) js_le_iff_not_lt)
qed

lemma consistent_compare_items:
  assumes lc: "consistent UNIV localeCompare"
    and keys: "\<forall>i\<in>A. numeric_keys i"
  shows "consistent A (compare_items localeCompare field direction)"
proof (cases "field = Type")
  case True
  have asym: "\<not> positive (localeCompare t s)" if "positive (localeCompare s t)" for s t
    using lc _ _ that by (rule consistent_asym) simp_all
  have trans: "\<not> positive (localeCompare s u)"
    if "\<not> positive (localeCompare s t)" "\<not> positive (localeCompare t u)" for s t u
    using lc _ _ _ that by (rule consistent_trans) simp_all
  show ?thesis
    unfolding consistent_def True
  proof (intro conjI ballI impI)
    fix x y
    assume "positive (compare_items localeCompare Type direction x y)"
    then show "\<not> positive (compare_items localeCompare Type direction y x)"
      by (cases direction) (simp_all add: asym)
  next
    fix x y z
    assume "\<not> positive (compare_items localeCompare Type direction x y)"
      and "\<not> positive (compare_items localeCompare Type direction y z)"
    then show "\<not> positive (compare_items localeCompare Type direction x z)"
      by (cases direction) (simp_all, (erule (1) trans)+)
  qed
next
  case False
  show ?thesis
    unfolding consistent_def
  proof (intro conjI ballI impI)
    fix x y
    assume x: "x \<in> A" and y: "y \<in> A"
      and p: "positive (compare_items localeCompare field direction x y)"
    from key_number_cases [OF False] keys x obtain v
      where v: "key_of field x = KNumber v" "json_number v" by blast
    from key_number_cases [OF False] keys y obtain w
      where w: "key_of field y = KNumber w" "json_number w" by blast
    from p show "\<not> positive (compare_items localeCompare field direction y x)"
      unfolding compare_items_number [OF False v(1) w(1)]
        compare_items_number [OF False w(1) v(1)]
      by (cases direction) (simp_all add: positive_js_minus v(2) w(2) js_lt_asym)
  next
    fix x y z
    assume x: "x \<in> A" and y: "y \<in> A" and z: "z \<in> A"
      and p: "\<not> positive (compare_items localeCompare field direction x y)"
      and q: "\<not> positive (compare_items localeCompare field direction y z)"
    from key_number_cases [OF False] keys x obtain v
      where v: "key_of field x = KNumber v" "json_number v" by blast
    from key_number_cases [OF False] keys y obtain w
      where w: "key_of field y = KNumber w" "json_number w" by blast
    from key_number_cases [OF False] keys z obtain u
      where u: "key_of field z = KNumber u" "json_number u" by blast
    from p q show "\<not> positive (compare_items localeCompare field direction x z)"
      unfolding compare_items_number [OF False v(1) w(1)]
        compare_items_number [OF False w(1) u(1)]
        compare_items_number [OF False v(1) u(1)]
      using js_lt_negtrans [OF v(2) w(2) u(2)] js_lt_negtrans [OF u(2) w(2) v(2)]
      by (cases direction) (simp_all add: positive_js_minus v(2) w(2) u(2))
  qed
qed

lemma same_key_not_after:
  assumes "consistent UNIV localeCompare" "numeric_keys a" "numeric_keys b"
    and "key_of field a = key_of field b"
  shows "\<not> positive (compare_items localeCompare field direction a b)"
proof (cases "field = Type")
  case True
  have "\<not> positive (localeCompare s s)" for s
  proof
    assume p: "positive (localeCompare s s)"
    have "\<not> positive (localeCompare s s)" using assms(1) _ _ p by (rule consistent_asym) simp_all
    then show False using p by (rule notE)
  qed
  then show ?thesis using assms(4) True by (cases direction) simp_all
next
  case False
  from key_number_cases [OF False assms(2)] obtain v
    where v: "key_of field a = KNumber v" "json_number v" .
  have w: "key_of field b = KNumber v" using assms(4) v(1) by simp
  show ?thesis
    unfolding compare_items_number [OF False v(1) w]
    by (simp add: positive_js_minus v(2))
qed


subsection \<open>The view is ordered and stable; the source is left alone\<close>

lemma sortedItems_Some:
  assumes "estimate page = Some e"
  shows "sortedItems localeCompare st page =
    ((st @ [st ! items e])
       [length st := sort_list (compare_items localeCompare (sortField page) (sortDirection page))
          (st ! items e)],
     length st)"
  by (simp add: sortedItems_def assms alloc_def Array_sort_def)

lemma sortedItems_view:
  assumes "estimate page = Some e"
  shows "fst (sortedItems localeCompare st page) ! snd (sortedItems localeCompare st page) =
    sort_list (compare_items localeCompare (sortField page) (sortDirection page)) (st ! items e)"
  by (simp add: sortedItems_Some [OF assms])

text \<open>
  C3. Take a collation whose compare function is consistent, and an estimate whose items
  carry numbers in their numeric columns. For each of the four columns and both
  directions, the view is a rearrangement of the estimate's items; it is in order for that
  column and direction (the type column by the collation's compare function, the other
  three numerically); and the items with any one key are in the view in the order they
  have in the estimate.
\<close>

theorem sortedItems_ordered_stable:
  assumes "consistent UNIV localeCompare"
    and "estimate page = Some e"
    and "\<forall>i\<in>set (st ! items e). numeric_keys i"
  shows "(let view = fst (sortedItems localeCompare st page) ! snd (sortedItems localeCompare st page)
          in mset view = mset (st ! items e)
             \<and> sorted_wrt (in_order localeCompare (sortField page) (sortDirection page)) view
             \<and> (\<forall>k. filter (\<lambda>i. key_of (sortField page) i = k) view
                    = filter (\<lambda>i. key_of (sortField page) i = k) (st ! items e)))"
proof -
  define cmp where "cmp = compare_items localeCompare (sortField page) (sortDirection page)"
  define xs where "xs = st ! items e"
  have view: "fst (sortedItems localeCompare st page) ! snd (sortedItems localeCompare st page)
      = sort_list cmp xs"
    unfolding cmp_def xs_def by (rule sortedItems_view [OF assms(2)])
  have keys: "\<forall>i\<in>set xs. numeric_keys i" using assms(3) by (simp only: xs_def)
  have "consistent (set xs) cmp"
    unfolding cmp_def using assms(1) keys by (rule consistent_compare_items)
  then have "sorted_wrt (\<lambda>a b. \<not> positive (cmp a b)) (sort_list cmp xs)"
    by (rule sorted_sort_list) simp
  moreover have "\<not> positive (cmp a b) \<Longrightarrow>
      in_order localeCompare (sortField page) (sortDirection page) a b"
    if "a \<in> set (sort_list cmp xs)" "b \<in> set (sort_list cmp xs)" for a b
  proof -
    have "numeric_keys a" "numeric_keys b" using that keys by simp_all
    then show "\<not> positive (cmp a b) \<Longrightarrow>
        in_order localeCompare (sortField page) (sortDirection page) a b"
      unfolding cmp_def by (simp only: not_after_iff_in_order)
  qed
  ultimately have ordered:
    "sorted_wrt (in_order localeCompare (sortField page) (sortDirection page)) (sort_list cmp xs)"
    by (rule sorted_wrt_mono_rel [rotated])
  have stable: "filter (\<lambda>i. key_of (sortField page) i = k) (sort_list cmp xs)
      = filter (\<lambda>i. key_of (sortField page) i = k) xs" for k
  proof (rule filter_sort_list, intro ballI impI)
    fix x y
    assume x: "x \<in> set xs" and y: "y \<in> set xs"
      and k: "key_of (sortField page) x = k \<and> key_of (sortField page) y = k"
    have "numeric_keys x" "numeric_keys y" using x y keys by simp_all
    moreover have "key_of (sortField page) x = key_of (sortField page) y" using k by simp
    ultimately show "\<not> positive (cmp x y)"
      unfolding cmp_def using assms(1) by (intro same_key_not_after)
  qed
  show ?thesis
    unfolding Let_def view using ordered stable by (simp add: xs_def)
qed

text \<open>
  C8. Computing the view leaves every array of the store as it was, the estimate's
  \<^verbatim>\<open>items\<close> among them: the view is a new array at a new address, and only that array
  is sorted. (The estimate itself is a value of the page state, which the computation does
  not return.)
\<close>

theorem sortedItems_source_unchanged:
  "(let st' = fst (sortedItems localeCompare st page); a = snd (sortedItems localeCompare st page)
    in take (length st) st' = st
       \<and> a = length st
       \<and> length st' = Suc (length st)
       \<and> (\<forall>e. estimate page = Some e \<and> items e < length st \<longrightarrow>
             st' ! items e = st ! items e \<and> a \<noteq> items e))"
proof (cases "estimate page")
  case None
  then show ?thesis by (simp add: sortedItems_def alloc_def)
next
  case (Some e)
  show ?thesis
    unfolding Let_def sortedItems_Some [OF Some]
    by (simp add: Some nth_append nth_list_update)
qed


subsection \<open>An example\<close>

text \<open>A collation for the example: strings compared by the codes of their characters.\<close>

fun code_compare :: "string \<Rightarrow> string \<Rightarrow> int" where
  "code_compare [] [] = 0"
| "code_compare [] (y # ys) = - 1"
| "code_compare (x # xs) [] = 1"
| "code_compare (x # xs) (y # ys) =
     (if (of_char x :: nat) < of_char y then - 1
      else if (of_char y :: nat) < of_char x then 1
      else code_compare xs ys)"

definition code_localeCompare :: "string \<Rightarrow> string \<Rightarrow> number" where
  "code_localeCompare s t = Fin (of_int (code_compare s t))"

lemma code_compare_swap: "code_compare t s = - code_compare s t"
  by (induction s t rule: code_compare.induct) auto

lemma code_compare_trans:
  "code_compare s t \<le> 0 \<Longrightarrow> code_compare t u \<le> 0 \<Longrightarrow> code_compare s u \<le> 0"
proof (induction s t arbitrary: u rule: code_compare.induct)
  case 1
  then show ?case by simp
next
  case (2 y ys)
  then show ?case by (cases u) simp_all
next
  case (3 x xs)
  then show ?case by simp
next
  case (4 x xs y ys)
  show ?case
  proof (cases u)
    case Nil
    with 4 show ?thesis by simp
  next
    case (Cons z zs)
    with "4.prems" "4.IH" [of zs] show ?thesis
      by (auto split: if_splits)
  qed
qed

lemma positive_code_localeCompare [simp]:
  "positive (code_localeCompare s t) = (0 < code_compare s t)"
  by (simp add: positive_def code_localeCompare_def)

lemma consistent_code_localeCompare: "consistent UNIV code_localeCompare"
  unfolding consistent_def
proof (intro conjI ballI impI)
  fix s t
  assume "positive (code_localeCompare s t)"
  then show "\<not> positive (code_localeCompare t s)"
    using code_compare_swap [of t s] by simp
next
  fix s t u
  assume "\<not> positive (code_localeCompare s t)" "\<not> positive (code_localeCompare t u)"
  then have "code_compare s t \<le> 0" "code_compare t u \<le> 0" by simp_all
  then have "code_compare s u \<le> 0" by (rule code_compare_trans)
  then show "\<not> positive (code_localeCompare s u)" by simp
qed

text \<open>
  The scenario of the specification: an estimate with five items, two pairs of them with
  the same cost, viewed by cost, highest first.
\<close>

definition example_item :: "string \<Rightarrow> number \<Rightarrow> EstimateItem" where
  "example_item t c =
     \<lparr>intervention = \<lparr>itype = t, quantity = Fin 1, unit = ''nos'', location = [],
        confidence = Fin 1, extraction_method = ''text''\<rparr>,
      materials = [], total_cost = c, audit_trail = [], assumptions = []\<rparr>"

definition five_items :: "EstimateItem list" where
  "five_items = [example_item ''sign'' (Fin 2), example_item ''barrier'' (Fin 4),
     example_item ''marking'' (Fin 2), example_item ''stud'' (Fin 1),
     example_item ''hump'' (Fin 4)]"

definition example_page :: ResultsState where
  "example_page =
     \<lparr>route_id = Some ''abc123'',
      estimate = Some \<lparr>estimate_id = ''abc123'', filename = ''report.pdf'', created_at = [],
        status = ''completed'', items = 0, total_cost = Fin 13, confidence = Fin 1,
        metadata = []\<rparr>,
      loading = False, load_error = None, expandedRows = {}, sortField = Cost,
      sortDirection = Desc, exporting = None\<rparr>"

lemma binary64_1: "binary64 1"
proof (rule binary64_posI)
  show "rnd 1 = (1::rat)" by (subst rnd_eval [where e = 0]) (simp_all add: rne_def)
qed simp_all

lemma binary64_2: "binary64 2"
proof (rule binary64_posI)
  show "rnd 2 = (2::rat)" by (subst rnd_eval [where e = 1]) (simp_all add: rne_def)
qed simp_all

lemma binary64_4: "binary64 4"
proof (rule binary64_posI)
  show "rnd 4 = (4::rat)" by (subst rnd_eval [where e = 2]) (simp_all add: rne_def)
qed simp_all

lemma numeric_keys_five_items: "\<forall>i\<in>set five_items. numeric_keys i"
  by (simp add: five_items_def example_item_def numeric_keys_def binary64_1 binary64_2 binary64_4)

lemma positive_fl64_of_int: "positive (fl64 (of_int k)) = (0 < k)"
proof (cases "0 < k")
  case True
  have "(2::rat) powi (1074 + - 1074) = 2 powi 1074 * 2 powi (- 1074)" by (rule pow2_add)
  then have one: "(2::rat) powi 1074 * 2 powi (- 1074) = 1" by simp
  have "(of_int (k * 2 ^ 1074) :: rat) = of_int k * 2 powi 1074" by simp
  then have "(of_int (k * 2 ^ 1074) :: rat) * 2 powi (- 1074)
      = of_int k * (2 powi 1074 * 2 powi (- 1074))"
    by (simp only: mult.assoc)
  then have grid: "(of_int k :: rat) = of_int (k * 2 ^ 1074) * 2 powi (- 1074)"
    by (simp only: one mult_1_right)
  have "(0::rat) < of_int k" using True by simp
  then have "js_lt (Fin 0) (fl64 (of_int k))" using grid by (rule fl64_pos)
  then show ?thesis using True by (simp add: positive_def)
next
  case False
  then have "(of_int k :: rat) \<le> 0" by simp
  then have "\<not> js_lt (Fin 0) (fl64 (of_int k))" by (rule fl64_not_pos)
  then show ?thesis using False by (simp add: positive_def)
qed

lemma positive_fl64_numeral [simp]:
  "positive (fl64 (numeral n))" "\<not> positive (fl64 (- numeral n))"
  "\<not> positive (fl64 0)" "positive (fl64 1)" "\<not> positive (fl64 (- 1))"
  using positive_fl64_of_int [of "numeral n"] positive_fl64_of_int [of "- numeral n"]
    positive_fl64_of_int [of 0] positive_fl64_of_int [of 1] positive_fl64_of_int [of "- 1"]
  by simp_all

lemma example_view:
  "fst (sortedItems code_localeCompare [five_items] example_page)
     ! snd (sortedItems code_localeCompare [five_items] example_page)
   = [example_item ''barrier'' (Fin 4), example_item ''hump'' (Fin 4),
      example_item ''sign'' (Fin 2), example_item ''marking'' (Fin 2),
      example_item ''stud'' (Fin 1)]"
  by (simp add: sortedItems_def alloc_def Array_sort_def example_page_def five_items_def
      example_item_def)

theorem sortedItems_ordered_stable_witness:
  "consistent UNIV code_localeCompare
   \<and> estimate example_page \<noteq> None
   \<and> list_all numeric_keys five_items
   \<and> fst (sortedItems code_localeCompare [five_items] example_page)
        ! snd (sortedItems code_localeCompare [five_items] example_page)
      = [example_item ''barrier'' (Fin 4), example_item ''hump'' (Fin 4),
         example_item ''sign'' (Fin 2), example_item ''marking'' (Fin 2),
         example_item ''stud'' (Fin 1)]
   \<and> sorted_wrt (in_order code_localeCompare Cost Desc)
        [example_item ''barrier'' (Fin 4), example_item ''hump'' (Fin 4),
         example_item ''sign'' (Fin 2), example_item ''marking'' (Fin 2),
         example_item ''stud'' (Fin 1)]
   \<and> filter (\<lambda>i. key_of Cost i = KNumber (Fin 2))
        [example_item ''barrier'' (Fin 4), example_item ''hump'' (Fin 4),
         example_item ''sign'' (Fin 2), example_item ''marking'' (Fin 2),
         example_item ''stud'' (Fin 1)]
      = filter (\<lambda>i. key_of Cost i = KNumber (Fin 2)) five_items"
proof -
  have e: "estimate example_page = Some \<lparr>estimate_id = ''abc123'', filename = ''report.pdf'',
      created_at = [], status = ''completed'', items = 0, total_cost = Fin 13,
      confidence = Fin 1, metadata = []\<rparr>"
    by (simp add: example_page_def)
  have k: "\<forall>i\<in>set ([five_items] ! items \<lparr>estimate_id = ''abc123'', filename = ''report.pdf'',
      created_at = [], status = ''completed'', items = 0, total_cost = Fin 13,
      confidence = Fin 1, metadata = []\<rparr>). numeric_keys i"
    using numeric_keys_five_items by simp
  have f: "sortField example_page = Cost" "sortDirection example_page = Desc"
    by (simp_all add: example_page_def)
  note T = sortedItems_ordered_stable [OF consistent_code_localeCompare e k,
      unfolded Let_def example_view f]
  have s: "sorted_wrt (in_order code_localeCompare Cost Desc)
        [example_item ''barrier'' (Fin 4), example_item ''hump'' (Fin 4),
         example_item ''sign'' (Fin 2), example_item ''marking'' (Fin 2),
         example_item ''stud'' (Fin 1)]"
    by (rule T [THEN conjunct2, THEN conjunct1])
  have t: "filter (\<lambda>i. key_of Cost i = KNumber (Fin 2))
        [example_item ''barrier'' (Fin 4), example_item ''hump'' (Fin 4),
         example_item ''sign'' (Fin 2), example_item ''marking'' (Fin 2),
         example_item ''stud'' (Fin 1)]
      = filter (\<lambda>i. key_of Cost i = KNumber (Fin 2)) five_items"
    using T [THEN conjunct2, THEN conjunct2, THEN spec, of "KNumber (Fin 2)"] by simp
  show ?thesis
    using consistent_code_localeCompare numeric_keys_five_items example_view s t e
    by (simp only: list_all_iff) simp
qed

theorem sortedItems_source_unchanged_witness:
  "estimate example_page \<noteq> None
   \<and> fst (sortedItems code_localeCompare [five_items] example_page) ! 0 = five_items
   \<and> snd (sortedItems code_localeCompare [five_items] example_page) = 1
   \<and> fst (sortedItems code_localeCompare [five_items] example_page) ! 1 \<noteq> five_items"
proof -
  have e: "estimate example_page = Some \<lparr>estimate_id = ''abc123'', filename = ''report.pdf'',
      created_at = [], status = ''completed'', items = 0, total_cost = Fin 13,
      confidence = Fin 1, metadata = []\<rparr>"
    by (simp add: example_page_def)
  note T = sortedItems_source_unchanged [where st = "[five_items]" and page = example_page
      and localeCompare = code_localeCompare, unfolded Let_def]
  have a: "snd (sortedItems code_localeCompare [five_items] example_page) = 1"
    using T by simp
  have "fst (sortedItems code_localeCompare [five_items] example_page) ! 0 = five_items"
    using T e by simp
  moreover have "fst (sortedItems code_localeCompare [five_items] example_page) ! 1 \<noteq> five_items"
    using example_view unfolding a by (simp add: five_items_def example_item_def)
  ultimately show ?thesis using a e by simp
qed

end
